theory Spec2Isabelle
  imports Complex_Main "HOL-Library.Word"
begin

unbundle bit_operations_syntax

section \<open>The NDI to OMT converter: data model\<close>

text \<open>
  The theory embeds \<^verbatim>\<open>src/C++/ndi2omt/ndi_to_omt_converter.cpp\<close>: the class
  \<^verbatim>\<open>NDIToOMTConverter\<close> with its capture loop \<^verbatim>\<open>run\<close>, the frame handlers
  \<^verbatim>\<open>handle_video_frame\<close>, \<^verbatim>\<open>handle_compressed_frame\<close>,
  \<^verbatim>\<open>send_compressed_to_omt\<close> and the report \<^verbatim>\<open>print_statistics\<close>.

  C++ \<^verbatim>\<open>int\<close> and \<^verbatim>\<open>std::atomic<int>\<close> are 32-bit words read as two's
  complement (\<open>sint\<close>); \<^verbatim>\<open>++\<close> and \<^verbatim>\<open>+=\<close> on an atomic wrap around.
  \<^verbatim>\<open>uint8_t\<close> is an 8-bit word, \<^verbatim>\<open>uint32_t\<close> a 32-bit word.
\<close>

type_synonym u8 = "8 word"
type_synonym u32 = "32 word"
type_synonym s32 = "32 word"

text \<open>
  The two SDK headers (\<^verbatim>\<open>Processing.NDI.Advanced.h\<close>, \<^verbatim>\<open>libomt.h\<close>) are not part
  of the repository. What the converter takes from them is a parameter of the model:
  the size of \<^verbatim>\<open>NDIlib_compressed_packet_t\<close>, the reads of its fields \<^verbatim>\<open>fourCC\<close>
  and \<^verbatim>\<open>flags\<close> from the header bytes, and the enumeration constants the code names.
\<close>

record sdk =
  sizeof_packet :: nat
  packet_fourCC :: "u8 list \<Rightarrow> u32"
  packet_flags :: "u8 list \<Rightarrow> u32"
  FourCC_type_H264 :: u32
  flags_keyframe :: u32
  OMTFrameType_Video :: u32
  OMTCodec_VMX1 :: u32
  OMTColorSpace_BT709 :: u32
  OMTVideoFlags_None :: u32

text \<open>
  \<^verbatim>\<open>NDIlib_video_frame_v2_t\<close>, with the fields the converter reads. The buffer behind
  \<^verbatim>\<open>p_data\<close> is a byte list (\<open>None\<close> is the null pointer) and
  \<^verbatim>\<open>data_size_in_bytes\<close> is its length.
\<close>

record NDIlib_video_frame_v2_t =
  xres :: s32
  yres :: s32
  FourCC :: u32
  frame_rate_N :: s32
  frame_rate_D :: s32
  p_data :: "u8 list option"

definition data_size_in_bytes :: "NDIlib_video_frame_v2_t \<Rightarrow> int" where
  "data_size_in_bytes f = (case p_data f of None \<Rightarrow> 0 | Some bs \<Rightarrow> int (length bs))"

text \<open>
  \<^verbatim>\<open>OMTMediaFrame\<close>, with the fields the converter writes. The aspect ratio is a
  float (see the next section); the data pointer is the byte list it points to.
\<close>

record OMTMediaFrame =
  Type :: u32
  Codec :: u32
  ColorSpace :: u32
  Flags :: u32
  Timestamp :: int
  Width :: s32
  Height :: s32
  FrameRateN :: s32
  FrameRateD :: s32
  AspectRatio :: "rat option"
  Data :: "u8 list option"
  DataLength :: nat
  CompressedData :: "u8 list option"
  CompressedLength :: nat
  Stride :: s32

section \<open>Single-precision arithmetic\<close>

text \<open>
  The converter computes its ratios in \<^verbatim>\<open>float\<close>. A finite float is the rational it
  denotes; \<open>None\<close> stands for the infinities and NaN that a division by zero gives
  (the division never traps). \<open>f32_round\<close> is rounding to the nearest single-precision
  value, ties to even, with a 24-bit significand and the smallest exponent -126.
  Overflow to infinity is not modelled: the operands below are quotients and products
  of 32-bit and 64-bit integers, far from the largest float.
\<close>

function bitlen :: "nat \<Rightarrow> nat" where
  "bitlen n = (if n = 0 then 0 else Suc (bitlen (n div 2)))"
  by pat_completeness auto
termination
  by (relation "measure (\<lambda>n. n)") auto

declare bitlen.simps [simp del]

text \<open>The exponent \<open>e\<close> with \<open>2 ^ e \<le> q < 2 ^ (e + 1)\<close>, for \<open>q > 0\<close>.\<close>

definition binade :: "rat \<Rightarrow> int" where
  "binade q = (case quotient_of q of (a, b) \<Rightarrow>
      (let e0 = int (bitlen (nat a)) - int (bitlen (nat b))
       in if 2 powi e0 \<le> q then e0 else e0 - 1))"

definition round_even :: "rat \<Rightarrow> int" where
  "round_even x = (let f = \<lfloor>x\<rfloor>; d = x - of_int f in
     if d < 1 / 2 then f else if 1 / 2 < d then f + 1 else if even f then f else f + 1)"

definition f32_round :: "rat \<Rightarrow> rat" where
  "f32_round q = (if q = 0 then 0 else
     (let a = \<bar>q\<bar>; e = max (binade a) (- 126); ulp = 2 powi (e - 23)
      in sgn q * of_int (round_even (a / ulp)) * ulp))"

text \<open>The conversion \<^verbatim>\<open>(float)n\<close> of an integer, and the float operations used.\<close>

definition f32_of_int :: "int \<Rightarrow> rat" where
  "f32_of_int n = f32_round (of_int n)"

definition f32_mul :: "rat \<Rightarrow> rat \<Rightarrow> rat" where
  "f32_mul a b = f32_round (a * b)"

definition f32_div :: "rat \<Rightarrow> rat \<Rightarrow> rat option" where
  "f32_div a b = (if b = 0 then None else Some (f32_round (a / b)))"

text \<open>The double-precision constant \<^verbatim>\<open>0.1\<close>: the double nearest to one tenth.\<close>

definition double_0_1 :: rat where
  "double_0_1 = 3602879701896397 / 36028797018963968"

section \<open>The bitstream scan of \<^verbatim>\<open>handle_compressed_frame\<close>\<close>

text \<open>\<^verbatim>\<open>std::to_string\<close> of a non-negative value: its decimal digits.\<close>

definition digit_char :: "nat \<Rightarrow> char" where
  "digit_char d = char_of (48 + d)"

function to_string :: "nat \<Rightarrow> string" where
  "to_string n = (if n < 10 then [digit_char n] else to_string (n div 10) @ [digit_char (n mod 10)])"
  by pat_completeness auto
termination
  by (relation "measure (\<lambda>n. n)") auto

declare to_string.simps [simp del]

text \<open>The chain of comparisons on \<^verbatim>\<open>nal_type\<close> (lines 382-387 and 397-402).\<close>

definition nal_frame_type :: "u8 \<Rightarrow> string" where
  "nal_frame_type nal_type =
     (if nal_type = 5 then ''IDR (I-frame)''
      else if nal_type = 1 then ''P-frame''
      else if nal_type = 7 then ''SPS''
      else if nal_type = 8 then ''PPS''
      else ''NAL type '' @ to_string (unat nal_type))"

text \<open>
  The body of the branch taken when a start code ends at index \<open>i\<close>: the NAL byte is
  read only if \<^verbatim>\<open>i + 1 < h264_size\<close>; otherwise \<^verbatim>\<open>frame_type\<close> keeps its initial
  value.
\<close>

definition analyse_nal :: "u8 list \<Rightarrow> nat \<Rightarrow> string" where
  "analyse_nal h264_data i =
     (if i + 1 < length h264_data then nal_frame_type (h264_data ! (i + 1) AND 0x1F)
      else ''Unknown'')"

text \<open>
  The \<^verbatim>\<open>for\<close> loop of lines 374-406, from index \<open>i\<close> on. The result is the pair
  (\<^verbatim>\<open>has_start_codes\<close>, \<^verbatim>\<open>frame_type\<close>). The four-byte test comes first, as in
  the source; every read is below \<^verbatim>\<open>h264_size\<close>.
\<close>

function scan_from :: "u8 list \<Rightarrow> nat \<Rightarrow> bool \<times> string" where
  "scan_from h264_data i =
     (if i < min (length h264_data) 32 then
        if i \<ge> 3 \<and> h264_data ! (i - 3) = 0 \<and> h264_data ! (i - 2) = 0 \<and>
           h264_data ! (i - 1) = 0 \<and> h264_data ! i = 1
        then (True, analyse_nal h264_data i)
        else if i \<ge> 2 \<and> h264_data ! (i - 2) = 0 \<and> h264_data ! (i - 1) = 0 \<and>
           h264_data ! i = 1
        then (True, analyse_nal h264_data i)
        else scan_from h264_data (i + 1)
      else (False, ''Unknown''))"
  by pat_completeness auto
termination
  by (relation "measure (\<lambda>(h, i). min (length h) 32 - i)") auto

declare scan_from.simps [simp del]

definition scan_start_codes :: "u8 list \<Rightarrow> bool \<times> string" where
  "scan_start_codes h264_data = scan_from h264_data 0"

section \<open>The converter and its environment\<close>

text \<open>
  What the converter prints, one entry per diagnostic that reports a decision. A
  statistics block carries the numbers it shows.
\<close>

record statistics =
  stat_seconds :: int
  stat_frames_received :: s32
  stat_frames_sent :: s32
  stat_frames_dropped :: s32
  stat_keyframes_sent :: s32
  stat_pframes_sent :: s32
  stat_ip_ratio :: "rat option"
  stat_success_rate :: "rat option"
  stat_avg_fps_received :: "rat option"
  stat_avg_fps_sent :: "rat option"
  stat_mbps_received :: "rat option"
  stat_mbps_sent :: "rat option"
  stat_connections :: s32
  stat_width :: s32
  stat_height :: s32

datatype diag =
    Stream_format s32 s32
  | Could_not_extract
  | Frame_too_small
  | Packet_not_H264
  | Frame_not_compressed
  | Frame_analysis bool string
  | No_start_codes
  | Sending_I_frame nat s32
  | Sending_P_frame nat s32
  | Send_returned_0
  | Send_succeeded s32
  | Send_failed s32 s32
  | Status_changed
  | Frame_statistics statistics
  | Warning_only_I_frames
  | Warning_high_drop_rate

datatype frame_kind = Video_kind | Audio_kind | Metadata_kind

text \<open>
  The members of \<^verbatim>\<open>NDIToOMTConverter\<close>, the locals of \<^verbatim>\<open>run\<close> that live across
  iterations (\<^verbatim>\<open>omt_frame\<close>, \<^verbatim>\<open>last_connection_check\<close>), and three traces of the
  calls into the libraries and the console: the frames handed to \<^verbatim>\<open>omt_send\<close>, the
  buffers handed back through \<^verbatim>\<open>NDIlib_recv_free_*\<close>, and the diagnostics printed.
  Time points are nanoseconds on the clock.
\<close>

record converter =
  frames_received :: s32
  frames_sent :: s32
  bytes_received :: s32
  bytes_sent :: s32
  connections :: s32
  keyframes_sent :: s32
  pframes_sent :: s32
  frames_dropped :: s32
  current_width :: s32
  current_height :: s32
  current_fps_n :: s32
  current_fps_d :: s32
  start_time :: int
  last_stats_time :: int
  omt_frame :: OMTMediaFrame
  last_connection_check :: int
  omt_sent :: "OMTMediaFrame list"
  ndi_freed :: "(frame_kind \<times> nat) list"
  console :: "diag list"

text \<open>
  What one loop iteration receives from outside: the result of
  \<^verbatim>\<open>NDIlib_recv_capture_v3\<close> with the identity of the buffer it delivers, the value
  \<^verbatim>\<open>omt_send\<close> returns if it is called, the two readings of
  \<^verbatim>\<open>omt_send_connections\<close>, and the two clock readings.
\<close>

datatype capture =
    Frame_video NDIlib_video_frame_v2_t
  | Frame_audio
  | Frame_metadata
  | Frame_none
  | Frame_status_change
  | Frame_other

record iteration_env =
  captured :: capture
  buffer_id :: nat
  send_result :: s32
  send_conn_count :: s32
  loop_now :: int
  loop_connections :: s32
  stats_now :: int

section \<open>Forwarding a frame\<close>

text \<open>The quotient \<^verbatim>\<open>(float)a / b\<close> of two ints, as in the aspect ratio.\<close>

definition float_quot :: "s32 \<Rightarrow> s32 \<Rightarrow> rat option" where
  "float_quot a b = f32_div (f32_of_int (sint a)) (f32_of_int (sint b))"

text \<open>
  \<^verbatim>\<open>send_compressed_to_omt\<close> (lines 437-501). The frame counters by type are
  incremented where the flags are set, before \<^verbatim>\<open>omt_send\<close> is called; the value
  \<^verbatim>\<open>omt_send\<close> returns comes from the environment.
\<close>

definition send_compressed_to_omt ::
  "sdk \<Rightarrow> iteration_env \<Rightarrow> u8 list \<Rightarrow> nat \<Rightarrow> bool \<Rightarrow> converter \<Rightarrow> bool \<times> converter" where
  "send_compressed_to_omt k env h264_data data_size is_keyframe c =
     (let fr = (omt_frame c)\<lparr>Width := current_width c, Height := current_height c,
                 FrameRateN := current_fps_n c, FrameRateD := current_fps_d c,
                 AspectRatio := float_quot (current_width c) (current_height c),
                 Data := Some h264_data, DataLength := data_size,
                 CompressedData := None, CompressedLength := 0, Stride := 0\<rparr>;
          c1 = (if is_keyframe
                then c\<lparr>omt_frame := fr\<lparr>Flags := OMTVideoFlags_None k\<rparr>,
                       keyframes_sent := keyframes_sent c + 1,
                       console := console c @ [Sending_I_frame data_size (keyframes_sent c + 1)]\<rparr>
                else c\<lparr>omt_frame := fr\<lparr>Flags := OMTVideoFlags_None k\<rparr>,
                       pframes_sent := pframes_sent c + 1,
                       console := console c @ [Sending_P_frame data_size (pframes_sent c + 1)]\<rparr>);
          c2 = c1\<lparr>omt_sent := omt_sent c1 @ [omt_frame c1]\<rparr>;
          bytes_sent_result = send_result env
      in if 0 \<le> sint bytes_sent_result
         then (True, c2\<lparr>frames_sent := frames_sent c2 + 1,
                         bytes_sent := bytes_sent c2 + of_nat data_size,
                         bytes_received := bytes_received c2 + of_nat data_size,
                         console := console c2 @
                           [if bytes_sent_result = 0 then Send_returned_0
                            else Send_succeeded bytes_sent_result]\<rparr>)
         else (False, c2\<lparr>frames_dropped := frames_dropped c2 + 1,
                          console := console c2 @ [Send_failed bytes_sent_result (send_conn_count env)]\<rparr>))"

text \<open>
  \<^verbatim>\<open>handle_compressed_frame\<close> (lines 332-435): the checks on the buffer and the
  packet header, the scan for start codes, and the call of \<^verbatim>\<open>send_compressed_to_omt\<close>.
  The header is the first \<^verbatim>\<open>sizeof(NDIlib_compressed_packet_t)\<close> bytes of the buffer.
\<close>

definition handle_compressed_frame ::
  "sdk \<Rightarrow> iteration_env \<Rightarrow> NDIlib_video_frame_v2_t \<Rightarrow> converter \<Rightarrow> bool \<times> converter" where
  "handle_compressed_frame k env ndi_frame c =
     (case p_data ndi_frame of
        None \<Rightarrow> (False, c)
      | Some bytes \<Rightarrow>
          if data_size_in_bytes ndi_frame = 0 then (False, c)
          else if FourCC ndi_frame = FourCC_type_H264 k then
            if data_size_in_bytes ndi_frame < int (sizeof_packet k)
            then (False, c\<lparr>console := console c @ [Frame_too_small]\<rparr>)
            else
              (let packet = take (sizeof_packet k) bytes in
               if packet_fourCC k packet \<noteq> FourCC_type_H264 k
               then (False, c\<lparr>console := console c @ [Packet_not_H264]\<rparr>)
               else
                 (let h264_data = drop (sizeof_packet k) bytes;
                      h264_size = nat (data_size_in_bytes ndi_frame - int (sizeof_packet k));
                      is_keyframe = (packet_flags k packet AND flags_keyframe k \<noteq> 0);
                      (has_start_codes, frame_type) = scan_start_codes h264_data;
                      c1 = c\<lparr>console := console c @ [Frame_analysis is_keyframe frame_type] @
                              (if has_start_codes then [] else [No_start_codes])\<rparr>;
                      (sent_successfully, c2) =
                         send_compressed_to_omt k env h264_data h264_size is_keyframe c1
                  in (True, c2)))
          else (False, c\<lparr>console := console c @ [Frame_not_compressed]\<rparr>))"

text \<open>\<^verbatim>\<open>handle_video_frame\<close> (lines 301-330).\<close>

definition handle_video_frame ::
  "sdk \<Rightarrow> iteration_env \<Rightarrow> NDIlib_video_frame_v2_t \<Rightarrow> converter \<Rightarrow> converter" where
  "handle_video_frame k env ndi_frame c =
     (let c1 = c\<lparr>frames_received := frames_received c + 1\<rparr>;
          c2 = (if current_width c1 \<noteq> xres ndi_frame \<or> current_height c1 \<noteq> yres ndi_frame \<or>
                   current_fps_n c1 \<noteq> frame_rate_N ndi_frame \<or>
                   current_fps_d c1 \<noteq> frame_rate_D ndi_frame
                then c1\<lparr>current_width := xres ndi_frame, current_height := yres ndi_frame,
                        current_fps_n := frame_rate_N ndi_frame,
                        current_fps_d := frame_rate_D ndi_frame,
                        console := console c1 @ [Stream_format (xres ndi_frame) (yres ndi_frame)]\<rparr>
                else c1);
          (extracted, c3) = handle_compressed_frame k env ndi_frame c2
      in if extracted then c3 else c3\<lparr>console := console c3 @ [Could_not_extract]\<rparr>)"

section \<open>The statistics report\<close>

text \<open>\<^verbatim>\<open>duration_cast<seconds>\<close> of a duration in nanoseconds truncates towards zero.\<close>

definition seconds_of :: "int \<Rightarrow> int" where
  "seconds_of d = (if 0 \<le> d then d div 1000000000 else - ((- d) div 1000000000))"

text \<open>
  The test \<^verbatim>\<open>drop_rate > 0.1\<close> compares a float with a double constant: the float
  is widened without change. It is evaluated only after \<^verbatim>\<open>frames_received > 10\<close>, so
  never on the quotient by zero.
\<close>

definition exceeds_0_1 :: "rat option \<Rightarrow> bool" where
  "exceeds_0_1 x = (case x of None \<Rightarrow> False | Some v \<Rightarrow> double_0_1 < v)"

definition warn_only_I_frames :: "converter \<Rightarrow> bool" where
  "warn_only_I_frames c = (10 < sint (frames_sent c) \<and> pframes_sent c = 0)"

definition warn_high_drop_rate :: "converter \<Rightarrow> bool" where
  "warn_high_drop_rate c =
     (let drop_rate = f32_div (f32_of_int (sint (frames_dropped c)))
                              (f32_of_int (sint (frames_received c)))
      in 10 < sint (frames_received c) \<and> exceeds_0_1 drop_rate)"

definition frame_statistics :: "int \<Rightarrow> converter \<Rightarrow> statistics" where
  "frame_statistics seconds c =
     \<lparr>stat_seconds = seconds,
      stat_frames_received = frames_received c,
      stat_frames_sent = frames_sent c,
      stat_frames_dropped = frames_dropped c,
      stat_keyframes_sent = keyframes_sent c,
      stat_pframes_sent = pframes_sent c,
      stat_ip_ratio =
        (if 0 < sint (pframes_sent c)
         then f32_div (f32_of_int (sint (keyframes_sent c))) (f32_of_int (sint (pframes_sent c)))
         else Some 0),
      stat_success_rate =
        (if 0 < sint (frames_received c)
         then f32_div (f32_mul 100 (f32_of_int (sint (frames_sent c))))
                      (f32_of_int (sint (frames_received c)))
         else Some 0),
      stat_avg_fps_received = f32_div (f32_of_int (sint (frames_received c))) (f32_of_int seconds),
      stat_avg_fps_sent = f32_div (f32_of_int (sint (frames_sent c))) (f32_of_int seconds),
      stat_mbps_received =
        f32_div (f32_mul (f32_of_int (sint (bytes_received c))) 8) (f32_of_int (seconds * 1000000)),
      stat_mbps_sent =
        f32_div (f32_mul (f32_of_int (sint (bytes_sent c))) 8) (f32_of_int (seconds * 1000000)),
      stat_connections = connections c,
      stat_width = current_width c,
      stat_height = current_height c\<rparr>"

text \<open>\<^verbatim>\<open>print_statistics\<close> (lines 503-556), with the clock reading of line 504.\<close>

definition print_statistics :: "int \<Rightarrow> converter \<Rightarrow> converter" where
  "print_statistics now c =
     (if 2 * 1000000000 \<le> now - last_stats_time c then
        (let seconds = seconds_of (now - start_time c);
             c1 = (if 0 < seconds
                   then c\<lparr>console := console c @ [Frame_statistics (frame_statistics seconds c)] @
                            (if warn_only_I_frames c then [Warning_only_I_frames] else []) @
                            (if warn_high_drop_rate c then [Warning_high_drop_rate] else [])\<rparr>
                   else c)
         in c1\<lparr>last_stats_time := now\<rparr>)
      else c)"

section \<open>The capture loop\<close>

text \<open>
  One pass through the body of \<^verbatim>\<open>while (running)\<close> in \<^verbatim>\<open>run\<close> (lines 228-296):
  the \<^verbatim>\<open>switch\<close> on the frame type, each case freeing the buffer it was given, then
  the connection count and the report once a second has passed. The banner that the
  first video frame prints (\<^verbatim>\<open>warned_about_compression\<close>) decides nothing and is
  left out.
\<close>

definition iteration :: "sdk \<Rightarrow> iteration_env \<Rightarrow> converter \<Rightarrow> converter" where
  "iteration k env c =
     (let c1 = (case captured env of
                  Frame_video video_frame \<Rightarrow>
                    (let c' = handle_video_frame k env video_frame c
                     in c'\<lparr>ndi_freed := ndi_freed c' @ [(Video_kind, buffer_id env)]\<rparr>)
                | Frame_audio \<Rightarrow> c\<lparr>ndi_freed := ndi_freed c @ [(Audio_kind, buffer_id env)]\<rparr>
                | Frame_metadata \<Rightarrow>
                    c\<lparr>ndi_freed := ndi_freed c @ [(Metadata_kind, buffer_id env)]\<rparr>
                | Frame_none \<Rightarrow> c
                | Frame_status_change \<Rightarrow> c\<lparr>console := console c @ [Status_changed]\<rparr>
                | Frame_other \<Rightarrow> c);
          now = loop_now env
      in if 1000000000 \<le> now - last_connection_check c1
         then print_statistics (stats_now env)
                (c1\<lparr>connections := loop_connections env, last_connection_check := now\<rparr>)
         else c1)"

text \<open>
  The loop over the iterations performed until the shutdown flag is seen. No branch of
  the body leaves the loop.
\<close>

fun run :: "sdk \<Rightarrow> iteration_env list \<Rightarrow> converter \<Rightarrow> converter" where
  "run k [] c = c"
| "run k (env # envs) c = run k envs (iteration k env c)"

text \<open>
  The converter as constructed and as \<^verbatim>\<open>run\<close> starts: the member initialisers of
  lines 54-67, the constructor's clock reading \<open>t0\<close>, and the locals of lines 218-225
  with the clock reading \<open>t1\<close>.
\<close>

definition initial :: "sdk \<Rightarrow> int \<Rightarrow> int \<Rightarrow> converter" where
  "initial k t0 t1 =
     \<lparr>frames_received = 0, frames_sent = 0, bytes_received = 0, bytes_sent = 0,
      connections = 0, keyframes_sent = 0, pframes_sent = 0, frames_dropped = 0,
      current_width = 0, current_height = 0, current_fps_n = 30, current_fps_d = 1,
      start_time = t0, last_stats_time = t0,
      omt_frame = \<lparr>Type = OMTFrameType_Video k, Codec = OMTCodec_VMX1 k,
                    ColorSpace = OMTColorSpace_BT709 k, Flags = OMTVideoFlags_None k,
                    Timestamp = - 1, Width = 0, Height = 0, FrameRateN = 0, FrameRateD = 0,
                    AspectRatio = Some 0, Data = None, DataLength = 0,
                    CompressedData = None, CompressedLength = 0, Stride = 0\<rparr>,
      last_connection_check = t1,
      omt_sent = [], ndi_freed = [], console = []\<rparr>"

text \<open>
  A header layout to run the model on: twelve bytes, three little-endian 32-bit fields
  \<^verbatim>\<open>version\<close>, \<^verbatim>\<open>fourCC\<close>, \<^verbatim>\<open>flags\<close>; the four-character code is \<^verbatim>\<open>H264\<close> and
  the keyframe flag is bit 0.
\<close>

definition le32 :: "u8 list \<Rightarrow> nat \<Rightarrow> u32" where
  "le32 bs off = word_of_nat (unat (bs ! off)) + push_bit 8 (word_of_nat (unat (bs ! (off + 1))))
     + push_bit 16 (word_of_nat (unat (bs ! (off + 2))))
     + push_bit 24 (word_of_nat (unat (bs ! (off + 3))))"

definition test_sdk :: sdk where
  "test_sdk = \<lparr>sizeof_packet = 12, packet_fourCC = (\<lambda>bs. le32 bs 4),
     packet_flags = (\<lambda>bs. le32 bs 8), FourCC_type_H264 = 0x34363248, flags_keyframe = 1,
     OMTFrameType_Video = 2, OMTCodec_VMX1 = 0x31584D56, OMTColorSpace_BT709 = 709,
     OMTVideoFlags_None = 0\<rparr>"

definition test_header :: "u32 \<Rightarrow> u8 list" where
  "test_header flags = [1, 0, 0, 0, 0x48, 0x32, 0x36, 0x34, ucast flags, 0, 0, 0]"

definition test_frame :: "s32 \<Rightarrow> s32 \<Rightarrow> u8 list \<Rightarrow> NDIlib_video_frame_v2_t" where
  "test_frame w h bytes = \<lparr>xres = w, yres = h, FourCC = 0x34363248, frame_rate_N = 30,
     frame_rate_D = 1, p_data = Some bytes\<rparr>"

definition test_env :: "capture \<Rightarrow> s32 \<Rightarrow> iteration_env" where
  "test_env cap r = \<lparr>captured = cap, buffer_id = 7, send_result = r, send_conn_count = 0,
     loop_now = 0, loop_connections = 0, stats_now = 0\<rparr>"

text \<open>
  Frames and runs to evaluate the model on: a 1920-wide frame of a given height with
  six payload bytes (a four-byte start marker and an IDR unit) behind a header with
  the given flags, a keyframe with a payload of 65536 bytes, a run of eighteen delta
  frames that are sent and two whose send fails, and an iteration three seconds into
  the run that delivers no frame and prints the report.
\<close>

definition test_h264_frame :: "u32 \<Rightarrow> s32 \<Rightarrow> NDIlib_video_frame_v2_t" where
  "test_h264_frame flags h = test_frame 1920 h (test_header flags @ [0, 0, 0, 1, 0x65, 0x88])"

definition test_big_frame :: NDIlib_video_frame_v2_t where
  "test_big_frame = test_frame 1920 1080 (test_header 1 @ replicate 65536 0)"

definition test_report_env :: iteration_env where
  "test_report_env = \<lparr>captured = Frame_none, buffer_id = 0, send_result = 0, send_conn_count = 0,
     loop_now = 3000000000, loop_connections = 1, stats_now = 3000000000\<rparr>"

definition test_drop_run :: "iteration_env list" where
  "test_drop_run = replicate 18 (test_env (Frame_video (test_h264_frame 0 1080)) 200) @
     replicate 2 (test_env (Frame_video (test_h264_frame 0 1080)) (- 1))"

section \<open>Notions of the specification\<close>

text \<open>
  A three-byte start marker \<^verbatim>\<open>00 00 01\<close>, or a four-byte one \<^verbatim>\<open>00 00 00 01\<close>, ends at
  index \<open>i\<close> of the span. The first marker of the scan window is the one that ends
  first among the first \<open>min 32 (length h)\<close> bytes.
\<close>

definition marker3_ends :: "u8 list \<Rightarrow> nat \<Rightarrow> bool" where
  "marker3_ends h i = (2 \<le> i \<and> i < length h \<and> h ! (i - 2) = 0 \<and> h ! (i - 1) = 0 \<and> h ! i = 1)"

definition marker4_ends :: "u8 list \<Rightarrow> nat \<Rightarrow> bool" where
  "marker4_ends h i =
     (3 \<le> i \<and> i < length h \<and> h ! (i - 3) = 0 \<and> h ! (i - 2) = 0 \<and> h ! (i - 1) = 0 \<and> h ! i = 1)"

definition first_marker :: "u8 list \<Rightarrow> nat option" where
  "first_marker h = find (\<lambda>i. marker3_ends h i \<or> marker4_ends h i) [0..<min 32 (length h)]"

text \<open>The kinds of event that deliver a buffer to be released.\<close>

definition capture_kind :: "capture \<Rightarrow> frame_kind option" where
  "capture_kind cap =
     (case cap of
        Frame_video f \<Rightarrow> Some Video_kind
      | Frame_audio \<Rightarrow> Some Audio_kind
      | Frame_metadata \<Rightarrow> Some Metadata_kind
      | Frame_none \<Rightarrow> None
      | Frame_status_change \<Rightarrow> None
      | Frame_other \<Rightarrow> None)"

text \<open>
  The validator's verdict on a capture frame, read off the checks of
  \<^verbatim>\<open>handle_compressed_frame\<close>: a frame is accepted when it has a non-empty buffer,
  the compressed format tag, at least a header's worth of bytes and the H.264 codec
  identifier in its header. The encoded unit is what follows the header, and the
  container's keyframe flag is the keyframe bit of the header's flags.
\<close>

definition accepted :: "sdk \<Rightarrow> NDIlib_video_frame_v2_t \<Rightarrow> bool" where
  "accepted k f =
     (case p_data f of
        None \<Rightarrow> False
      | Some bs \<Rightarrow> bs \<noteq> [] \<and> FourCC f = FourCC_type_H264 k \<and> sizeof_packet k \<le> length bs \<and>
          packet_fourCC k (take (sizeof_packet k) bs) = FourCC_type_H264 k)"

definition encoded_unit :: "sdk \<Rightarrow> NDIlib_video_frame_v2_t \<Rightarrow> u8 list" where
  "encoded_unit k f = (case p_data f of None \<Rightarrow> [] | Some bs \<Rightarrow> drop (sizeof_packet k) bs)"

definition container_keyframe :: "sdk \<Rightarrow> NDIlib_video_frame_v2_t \<Rightarrow> bool" where
  "container_keyframe k f =
     (case p_data f of
        None \<Rightarrow> False
      | Some bs \<Rightarrow> packet_flags k (take (sizeof_packet k) bs) AND flags_keyframe k \<noteq> 0)"

definition analysis_lines :: "sdk \<Rightarrow> NDIlib_video_frame_v2_t \<Rightarrow> diag list" where
  "analysis_lines k f =
     [Frame_analysis (container_keyframe k f) (snd (scan_start_codes (encoded_unit k f)))] @
     (if fst (scan_start_codes (encoded_unit k f)) then [] else [No_start_codes])"

text \<open>
  The events of a run, as the counters see them: an iteration delivers a video frame;
  it forwards one (the frame is accepted and handed to \<^verbatim>\<open>omt_send\<close>), possibly a
  keyframe by the container's flag; the send succeeds when \<^verbatim>\<open>omt_send\<close> returns a
  non-negative value; the bytes forwarded are the size of the encoded unit of a frame
  that was sent successfully.
\<close>

definition delivers_video :: "iteration_env \<Rightarrow> bool" where
  "delivers_video env = (case captured env of Frame_video f \<Rightarrow> True | _ \<Rightarrow> False)"

definition forwards :: "sdk \<Rightarrow> iteration_env \<Rightarrow> bool" where
  "forwards k env = (case captured env of Frame_video f \<Rightarrow> accepted k f | _ \<Rightarrow> False)"

definition forwards_keyframe :: "sdk \<Rightarrow> iteration_env \<Rightarrow> bool" where
  "forwards_keyframe k env =
     (case captured env of Frame_video f \<Rightarrow> accepted k f \<and> container_keyframe k f | _ \<Rightarrow> False)"

definition send_ok :: "iteration_env \<Rightarrow> bool" where
  "send_ok env = (0 \<le> sint (send_result env))"

definition payload_size :: "sdk \<Rightarrow> iteration_env \<Rightarrow> nat" where
  "payload_size k env =
     (case captured env of Frame_video f \<Rightarrow> length (encoded_unit k f) | _ \<Rightarrow> 0)"

definition forwarded_bytes :: "sdk \<Rightarrow> iteration_env \<Rightarrow> nat" where
  "forwarded_bytes k env = (if forwards k env \<and> send_ok env then payload_size k env else 0)"

section \<open>The scan for start codes\<close>

lemma scan_from_find:
  "i \<le> min (length h) 32 \<Longrightarrow>
   scan_from h i =
     (case find (\<lambda>i. marker3_ends h i \<or> marker4_ends h i) [i..<min (length h) 32] of
        None \<Rightarrow> (False, ''Unknown'')
      | Some j \<Rightarrow> (True, analyse_nal h j))"
proof (induction "min (length h) 32 - i" arbitrary: i)
  case 0
  then have "i = min (length h) 32" by simp
  then show ?case
    by (subst scan_from.simps) simp
next
  case (Suc d)
  then have lt: "i < min (length h) 32" by linarith
  then have upt: "[i..<min (length h) 32] = i # [Suc i..<min (length h) 32]"
    by (rule upt_conv_Cons)
  have ih: "scan_from h (Suc i) =
     (case find (\<lambda>i. marker3_ends h i \<or> marker4_ends h i) [Suc i..<min (length h) 32] of
        None \<Rightarrow> (False, ''Unknown'')
      | Some j \<Rightarrow> (True, analyse_nal h j))"
    using Suc.hyps(1) [of "Suc i"] Suc.hyps(2) lt by simp
  have il: "i < length h" using lt by simp
  show ?case
  proof (cases "marker3_ends h i \<or> marker4_ends h i")
    case True
    then have m3: "marker3_ends h i"
      by (auto simp: marker3_ends_def marker4_ends_def)
    have "scan_from h i = (True, analyse_nal h i)"
      using m3 lt by (subst scan_from.simps) (simp add: marker3_ends_def)
    then show ?thesis using True upt by simp
  next
    case False
    then have "scan_from h i = scan_from h (Suc i)"
      using lt il by (subst scan_from.simps) (auto simp: marker3_ends_def marker4_ends_def)
    then show ?thesis using False upt ih by simp
  qed
qed

text \<open>
  \<open>first_marker\<close> is the least index of the window at which a marker ends, and is
  \<open>None\<close> exactly when no marker ends inside the window.
\<close>

lemma first_marker_Some_iff:
  "first_marker h = Some i \<longleftrightarrow>
     i < min 32 (length h) \<and> (marker3_ends h i \<or> marker4_ends h i) \<and>
     (\<forall>j<i. \<not> (marker3_ends h j \<or> marker4_ends h j))"
proof -
  let ?P = "\<lambda>i. marker3_ends h i \<or> marker4_ends h i"
  let ?m = "min 32 (length h)"
  have "find ?P [0..<?m] = Some i \<longleftrightarrow>
        (\<exists>n<length [0..<?m]. ?P ([0..<?m] ! n) \<and> i = [0..<?m] ! n \<and> (\<forall>j<n. \<not> ?P ([0..<?m] ! j)))"
    by (rule find_Some_iff)
  also have "\<dots> \<longleftrightarrow> i < ?m \<and> ?P i \<and> (\<forall>j<i. \<not> ?P j)"
    by (auto simp del: upt_Suc)
  finally show ?thesis by (simp add: first_marker_def)
qed

lemma first_marker_None_iff:
  "first_marker h = None \<longleftrightarrow> (\<forall>i<min 32 (length h). \<not> (marker3_ends h i \<or> marker4_ends h i))"
  by (auto simp: first_marker_def find_None_iff)

text \<open>
  C5, as the code has it. The loop stops at the first start marker that ends within
  the first \<open>min 32 (length h)\<close> bytes of the span. If a byte follows that marker in the
  span, its low five bits give the frame type: 5 is an IDR frame, 1 a P-frame, 7 an SPS,
  8 a PPS, and any other code is reported by its number. If the marker ends the span,
  no byte is read and the frame type stays \<open>Unknown\<close>, although a start code was found.
  If no marker ends in the window, no start code is found and the type is \<open>Unknown\<close>.
\<close>

theorem scan_start_codes_first_marker:
  "scan_start_codes h =
     (case first_marker h of
        None \<Rightarrow> (False, ''Unknown'')
      | Some i \<Rightarrow>
          (True,
           if i + 1 < length h then
             (let code = h ! (i + 1) AND 0x1F in
              if code = 5 then ''IDR (I-frame)''
              else if code = 1 then ''P-frame''
              else if code = 7 then ''SPS''
              else if code = 8 then ''PPS''
              else ''NAL type '' @ to_string (unat code))
           else ''Unknown''))"
  using scan_from_find [of 0 h]
  by (simp add: scan_start_codes_def first_marker_def analyse_nal_def nal_frame_type_def
      min.commute Let_def split: option.split)

text \<open>
  The equation at three spans: a four-byte marker followed by \<^verbatim>\<open>0x65\<close>, a three-byte
  marker followed by \<^verbatim>\<open>0x6C\<close> (code 12), and a span without a marker.
\<close>

theorem scan_start_codes_first_marker_witness:
  "scan_start_codes [0, 0, 0, 1, 0x65, 0x88] = (True, ''IDR (I-frame)'') \<and>
   first_marker [0, 0, 0, 1, 0x65, 0x88] = Some 3 \<and>
   scan_start_codes [9, 0, 0, 1, 0x6C] = (True, ''NAL type 12'') \<and>
   first_marker [9, 0, 0, 1, 0x6C] = Some 3 \<and>
   scan_start_codes [1, 2, 3] = (False, ''Unknown'') \<and>
   first_marker [1, 2, 3] = None"
proof -
  have a: "first_marker [0, 0, 0, 1, 0x65, 0x88] = Some 3" by code_simp
  have b: "first_marker [9, 0, 0, 1, 0x6C] = Some 3" by code_simp
  have c: "first_marker [1, 2, 3] = None" by code_simp
  have d: "to_string 12 = ''12''" by code_simp
  show ?thesis
    using scan_start_codes_first_marker [of "[0, 0, 0, 1, 0x65, 0x88]"]
      scan_start_codes_first_marker [of "[9, 0, 0, 1, 0x6C]"]
      scan_start_codes_first_marker [of "[1, 2, 3]"]
    by (simp add: a b c d)
qed

text \<open>
  The claim as it is written fails on the span \<^verbatim>\<open>00 00 01\<close>: the marker is found,
  there is no byte after it to read, and the frame type is \<open>Unknown\<close>, which is none
  of the five mapped values.
\<close>

theorem scan_marker_at_end_counterexample:
  "first_marker [0, 0, 1] = Some 2 \<and> \<not> 2 + 1 < length [0, 0, 1 :: u8] \<and>
   scan_start_codes [0, 0, 1] = (True, ''Unknown'')"
  by code_simp

section \<open>Releasing the buffers\<close>

lemma ndi_freed_send [simp]:
  "ndi_freed (snd (send_compressed_to_omt k env h n kf c)) = ndi_freed c"
  by (simp add: send_compressed_to_omt_def Let_def)

lemma ndi_freed_compressed [simp]:
  "ndi_freed (snd (handle_compressed_frame k env f c)) = ndi_freed c"
proof -
  have "ndi_freed (snd (send_compressed_to_omt k env h n kf (c\<lparr>console := l\<rparr>))) = ndi_freed c"
    for h n kf l
    by simp
  then show ?thesis
    by (auto simp add: handle_compressed_frame_def Let_def split_beta split: option.split)
qed

lemma ndi_freed_video [simp]:
  "ndi_freed (handle_video_frame k env f c) = ndi_freed c"
proof -
  have "ndi_freed (snd (handle_compressed_frame k env f c')) = ndi_freed c'" for c'
    by simp
  then show ?thesis
    by (simp add: handle_video_frame_def Let_def split_beta)
qed

lemma ndi_freed_stats [simp]:
  "ndi_freed (print_statistics now c) = ndi_freed c"
  by (simp add: print_statistics_def Let_def)

text \<open>
  C9. An iteration that delivers a video, audio or metadata frame hands exactly that
  buffer back to the capture library, once, whatever the frame handler did with it
  (rejected, sent, or failed to send); an iteration that delivers nothing frees nothing.
\<close>

theorem iteration_frees_once:
  "ndi_freed (iteration k env c) =
     ndi_freed c @
       (case capture_kind (captured env) of Some kd \<Rightarrow> [(kd, buffer_id env)] | None \<Rightarrow> [])"
  by (simp add: iteration_def Let_def capture_kind_def split: capture.split)

section \<open>The effect of handling one frame\<close>

lemma handle_compressed_frame_accepted:
  assumes "accepted k f"
  shows "handle_compressed_frame k env f c =
    (True, snd (send_compressed_to_omt k env (encoded_unit k f) (length (encoded_unit k f))
       (container_keyframe k f) (c\<lparr>console := console c @ analysis_lines k f\<rparr>)))"
proof -
  have "nat (int m - int n) = m - n" for m n :: nat
    by simp
  then show ?thesis
    using assms
    by (auto simp: accepted_def handle_compressed_frame_def data_size_in_bytes_def encoded_unit_def
        container_keyframe_def analysis_lines_def Let_def split_beta split: option.splits)
qed

lemma handle_compressed_frame_rejected:
  assumes "\<not> accepted k f"
  shows "\<exists>msgs. handle_compressed_frame k env f c = (False, c\<lparr>console := console c @ msgs\<rparr>)"
proof (cases "p_data f")
  case None
  then have "handle_compressed_frame k env f c = (False, c\<lparr>console := console c @ []\<rparr>)"
    by (simp add: handle_compressed_frame_def)
  then show ?thesis by blast
next
  case (Some bs)
  consider "bs = []" | "bs \<noteq> []" "FourCC f \<noteq> FourCC_type_H264 k"
    | "bs \<noteq> []" "FourCC f = FourCC_type_H264 k" "length bs < sizeof_packet k"
    | "bs \<noteq> []" "FourCC f = FourCC_type_H264 k" "sizeof_packet k \<le> length bs"
      "packet_fourCC k (take (sizeof_packet k) bs) \<noteq> FourCC_type_H264 k"
    using assms Some unfolding accepted_def by (simp only: option.case) (meson not_le)
  then show ?thesis
  proof cases
    case 1
    then have "handle_compressed_frame k env f c = (False, c\<lparr>console := console c @ []\<rparr>)"
      using Some by (simp add: handle_compressed_frame_def data_size_in_bytes_def)
    then show ?thesis by blast
  next
    case 2
    then have "handle_compressed_frame k env f c = (False, c\<lparr>console := console c @ [Frame_not_compressed]\<rparr>)"
      using Some by (simp add: handle_compressed_frame_def data_size_in_bytes_def)
    then show ?thesis by blast
  next
    case 3
    then have "handle_compressed_frame k env f c = (False, c\<lparr>console := console c @ [Frame_too_small]\<rparr>)"
      using Some by (simp add: handle_compressed_frame_def data_size_in_bytes_def)
    then show ?thesis by blast
  next
    case 4
    then have "handle_compressed_frame k env f c = (False, c\<lparr>console := console c @ [Packet_not_H264]\<rparr>)"
      using Some by (simp add: handle_compressed_frame_def data_size_in_bytes_def)
    then show ?thesis by blast
  qed
qed


lemma send_counters:
  "frames_received (snd (send_compressed_to_omt k env h n kf c)) = frames_received c"
  "frames_sent (snd (send_compressed_to_omt k env h n kf c)) =
     (if 0 \<le> sint (send_result env) then frames_sent c + 1 else frames_sent c)"
  "bytes_sent (snd (send_compressed_to_omt k env h n kf c)) =
     (if 0 \<le> sint (send_result env) then bytes_sent c + of_nat n else bytes_sent c)"
  "bytes_received (snd (send_compressed_to_omt k env h n kf c)) =
     (if 0 \<le> sint (send_result env) then bytes_received c + of_nat n else bytes_received c)"
  "keyframes_sent (snd (send_compressed_to_omt k env h n kf c)) =
     (if kf then keyframes_sent c + 1 else keyframes_sent c)"
  "pframes_sent (snd (send_compressed_to_omt k env h n kf c)) =
     (if kf then pframes_sent c else pframes_sent c + 1)"
  "frames_dropped (snd (send_compressed_to_omt k env h n kf c)) =
     (if 0 \<le> sint (send_result env) then frames_dropped c else frames_dropped c + 1)"
  by (simp_all add: send_compressed_to_omt_def Let_def)

lemma send_unchanged:
  "current_width (snd (send_compressed_to_omt k env h n kf c)) = current_width c"
  "current_height (snd (send_compressed_to_omt k env h n kf c)) = current_height c"
  "current_fps_n (snd (send_compressed_to_omt k env h n kf c)) = current_fps_n c"
  "current_fps_d (snd (send_compressed_to_omt k env h n kf c)) = current_fps_d c"
  "connections (snd (send_compressed_to_omt k env h n kf c)) = connections c"
  "start_time (snd (send_compressed_to_omt k env h n kf c)) = start_time c"
  "last_stats_time (snd (send_compressed_to_omt k env h n kf c)) = last_stats_time c"
  "last_connection_check (snd (send_compressed_to_omt k env h n kf c)) = last_connection_check c"
  by (simp_all add: send_compressed_to_omt_def Let_def)

lemma send_envelope:
  "omt_sent (snd (send_compressed_to_omt k env h n kf c)) =
     omt_sent c @ [omt_frame (snd (send_compressed_to_omt k env h n kf c))]"
  "omt_frame (snd (send_compressed_to_omt k env h n kf c)) =
     (omt_frame c)\<lparr>Flags := OMTVideoFlags_None k,
        Width := current_width c, Height := current_height c,
        FrameRateN := current_fps_n c, FrameRateD := current_fps_d c,
        AspectRatio := float_quot (current_width c) (current_height c),
        Data := Some h, DataLength := n,
        CompressedData := None, CompressedLength := 0, Stride := 0\<rparr>"
  by (simp_all add: send_compressed_to_omt_def Let_def)

lemma send_result_flag:
  "fst (send_compressed_to_omt k env h n kf c) = (0 \<le> sint (send_result env))"
  by (simp add: send_compressed_to_omt_def Let_def)

lemma compressed_rejected:
  assumes "\<not> accepted k f"
  shows "fst (handle_compressed_frame k env f c) = False"
    "frames_received (snd (handle_compressed_frame k env f c)) = frames_received c"
    "frames_sent (snd (handle_compressed_frame k env f c)) = frames_sent c"
    "bytes_sent (snd (handle_compressed_frame k env f c)) = bytes_sent c"
    "bytes_received (snd (handle_compressed_frame k env f c)) = bytes_received c"
    "keyframes_sent (snd (handle_compressed_frame k env f c)) = keyframes_sent c"
    "pframes_sent (snd (handle_compressed_frame k env f c)) = pframes_sent c"
    "frames_dropped (snd (handle_compressed_frame k env f c)) = frames_dropped c"
    "omt_sent (snd (handle_compressed_frame k env f c)) = omt_sent c"
    "omt_frame (snd (handle_compressed_frame k env f c)) = omt_frame c"
    "current_width (snd (handle_compressed_frame k env f c)) = current_width c"
    "current_height (snd (handle_compressed_frame k env f c)) = current_height c"
    "current_fps_n (snd (handle_compressed_frame k env f c)) = current_fps_n c"
    "current_fps_d (snd (handle_compressed_frame k env f c)) = current_fps_d c"
    "connections (snd (handle_compressed_frame k env f c)) = connections c"
    "start_time (snd (handle_compressed_frame k env f c)) = start_time c"
    "last_stats_time (snd (handle_compressed_frame k env f c)) = last_stats_time c"
    "last_connection_check (snd (handle_compressed_frame k env f c)) = last_connection_check c"
proof -
  obtain msgs where e: "handle_compressed_frame k env f c = (False, c\<lparr>console := console c @ msgs\<rparr>)"
    using handle_compressed_frame_rejected [OF assms] by blast
  show "fst (handle_compressed_frame k env f c) = False"
    "frames_received (snd (handle_compressed_frame k env f c)) = frames_received c"
    "frames_sent (snd (handle_compressed_frame k env f c)) = frames_sent c"
    "bytes_sent (snd (handle_compressed_frame k env f c)) = bytes_sent c"
    "bytes_received (snd (handle_compressed_frame k env f c)) = bytes_received c"
    "keyframes_sent (snd (handle_compressed_frame k env f c)) = keyframes_sent c"
    "pframes_sent (snd (handle_compressed_frame k env f c)) = pframes_sent c"
    "frames_dropped (snd (handle_compressed_frame k env f c)) = frames_dropped c"
    "omt_sent (snd (handle_compressed_frame k env f c)) = omt_sent c"
    "omt_frame (snd (handle_compressed_frame k env f c)) = omt_frame c"
    "current_width (snd (handle_compressed_frame k env f c)) = current_width c"
    "current_height (snd (handle_compressed_frame k env f c)) = current_height c"
    "current_fps_n (snd (handle_compressed_frame k env f c)) = current_fps_n c"
    "current_fps_d (snd (handle_compressed_frame k env f c)) = current_fps_d c"
    "connections (snd (handle_compressed_frame k env f c)) = connections c"
    "start_time (snd (handle_compressed_frame k env f c)) = start_time c"
    "last_stats_time (snd (handle_compressed_frame k env f c)) = last_stats_time c"
    "last_connection_check (snd (handle_compressed_frame k env f c)) = last_connection_check c"
    by (simp_all add: e)
qed

lemma video_rejected:
  assumes "\<not> accepted k f"
  shows "frames_received (handle_video_frame k env f c) = frames_received c + 1"
    "frames_sent (handle_video_frame k env f c) = frames_sent c"
    "bytes_sent (handle_video_frame k env f c) = bytes_sent c"
    "bytes_received (handle_video_frame k env f c) = bytes_received c"
    "keyframes_sent (handle_video_frame k env f c) = keyframes_sent c"
    "pframes_sent (handle_video_frame k env f c) = pframes_sent c"
    "frames_dropped (handle_video_frame k env f c) = frames_dropped c"
    "omt_sent (handle_video_frame k env f c) = omt_sent c"
    "omt_frame (handle_video_frame k env f c) = omt_frame c"
  using assms
  by (simp_all add: handle_video_frame_def Let_def split_beta compressed_rejected)

lemma video_unchanged:
  "connections (handle_video_frame k env f c) = connections c"
  "start_time (handle_video_frame k env f c) = start_time c"
  "last_stats_time (handle_video_frame k env f c) = last_stats_time c"
  "last_connection_check (handle_video_frame k env f c) = last_connection_check c"
  by (cases "accepted k f";
      simp add: handle_video_frame_def Let_def split_beta compressed_rejected
        handle_compressed_frame_accepted send_unchanged)+

lemma video_geometry:
  "current_width (handle_video_frame k env f c) = xres f"
  "current_height (handle_video_frame k env f c) = yres f"
  "current_fps_n (handle_video_frame k env f c) = frame_rate_N f"
  "current_fps_d (handle_video_frame k env f c) = frame_rate_D f"
  by (cases "accepted k f";
      simp add: handle_video_frame_def Let_def split_beta compressed_rejected
        handle_compressed_frame_accepted send_unchanged)+

lemma video_accepted:
  assumes "accepted k f"
  shows "frames_received (handle_video_frame k env f c) = frames_received c + 1"
    "frames_sent (handle_video_frame k env f c) =
       (if 0 \<le> sint (send_result env) then frames_sent c + 1 else frames_sent c)"
    "bytes_sent (handle_video_frame k env f c) =
       (if 0 \<le> sint (send_result env) then bytes_sent c + of_nat (length (encoded_unit k f))
        else bytes_sent c)"
    "bytes_received (handle_video_frame k env f c) =
       (if 0 \<le> sint (send_result env) then bytes_received c + of_nat (length (encoded_unit k f))
        else bytes_received c)"
    "keyframes_sent (handle_video_frame k env f c) =
       (if container_keyframe k f then keyframes_sent c + 1 else keyframes_sent c)"
    "pframes_sent (handle_video_frame k env f c) =
       (if container_keyframe k f then pframes_sent c else pframes_sent c + 1)"
    "frames_dropped (handle_video_frame k env f c) =
       (if 0 \<le> sint (send_result env) then frames_dropped c else frames_dropped c + 1)"
    "omt_sent (handle_video_frame k env f c) =
       omt_sent c @ [omt_frame (handle_video_frame k env f c)]"
    "omt_frame (handle_video_frame k env f c) =
       (omt_frame c)\<lparr>Flags := OMTVideoFlags_None k,
        Width := xres f, Height := yres f,
        FrameRateN := frame_rate_N f, FrameRateD := frame_rate_D f,
        AspectRatio := float_quot (xres f) (yres f),
        Data := Some (encoded_unit k f), DataLength := length (encoded_unit k f),
        CompressedData := None, CompressedLength := 0, Stride := 0\<rparr>"
  using assms
  by (simp_all add: handle_video_frame_def Let_def split_beta handle_compressed_frame_accepted
      send_counters send_unchanged send_envelope)


lemma stats_unchanged:
  "frames_received (print_statistics now c) = frames_received c"
  "frames_sent (print_statistics now c) = frames_sent c"
  "bytes_sent (print_statistics now c) = bytes_sent c"
  "bytes_received (print_statistics now c) = bytes_received c"
  "keyframes_sent (print_statistics now c) = keyframes_sent c"
  "pframes_sent (print_statistics now c) = pframes_sent c"
  "frames_dropped (print_statistics now c) = frames_dropped c"
  "omt_sent (print_statistics now c) = omt_sent c"
  "omt_frame (print_statistics now c) = omt_frame c"
  "current_width (print_statistics now c) = current_width c"
  "current_height (print_statistics now c) = current_height c"
  "current_fps_n (print_statistics now c) = current_fps_n c"
  "current_fps_d (print_statistics now c) = current_fps_d c"
  "connections (print_statistics now c) = connections c"
  "start_time (print_statistics now c) = start_time c"
  "last_connection_check (print_statistics now c) = last_connection_check c"
  by (simp_all add: print_statistics_def Let_def)

lemma iteration_video:
  assumes "captured env = Frame_video f"
  shows "frames_received (iteration k env c) = frames_received (handle_video_frame k env f c)"
    "frames_sent (iteration k env c) = frames_sent (handle_video_frame k env f c)"
    "bytes_sent (iteration k env c) = bytes_sent (handle_video_frame k env f c)"
    "bytes_received (iteration k env c) = bytes_received (handle_video_frame k env f c)"
    "keyframes_sent (iteration k env c) = keyframes_sent (handle_video_frame k env f c)"
    "pframes_sent (iteration k env c) = pframes_sent (handle_video_frame k env f c)"
    "frames_dropped (iteration k env c) = frames_dropped (handle_video_frame k env f c)"
    "omt_sent (iteration k env c) = omt_sent (handle_video_frame k env f c)"
    "omt_frame (iteration k env c) = omt_frame (handle_video_frame k env f c)"
    "current_width (iteration k env c) = current_width (handle_video_frame k env f c)"
    "current_height (iteration k env c) = current_height (handle_video_frame k env f c)"
  using assms by (simp_all add: iteration_def Let_def stats_unchanged)

lemma iteration_no_video:
  assumes "\<And>f. captured env \<noteq> Frame_video f"
  shows "frames_received (iteration k env c) = frames_received c"
    "frames_sent (iteration k env c) = frames_sent c"
    "bytes_sent (iteration k env c) = bytes_sent c"
    "bytes_received (iteration k env c) = bytes_received c"
    "keyframes_sent (iteration k env c) = keyframes_sent c"
    "pframes_sent (iteration k env c) = pframes_sent c"
    "frames_dropped (iteration k env c) = frames_dropped c"
    "omt_sent (iteration k env c) = omt_sent c"
    "omt_frame (iteration k env c) = omt_frame c"
    "current_width (iteration k env c) = current_width c"
    "current_height (iteration k env c) = current_height c"
  using assms by (cases "captured env"; simp add: iteration_def Let_def stats_unchanged)+

lemma console_stats_grows: "\<exists>more. console (print_statistics now c) = console c @ more"
  by (simp add: print_statistics_def Let_def)

lemma console_iteration_video:
  assumes "captured env = Frame_video f"
  shows "\<exists>more. console (iteration k env c) = console (handle_video_frame k env f c) @ more"
proof -
  let ?c1 = "(handle_video_frame k env f c)\<lparr>ndi_freed :=
     ndi_freed (handle_video_frame k env f c) @ [(Video_kind, buffer_id env)]\<rparr>"
  let ?c2 = "?c1\<lparr>connections := loop_connections env, last_connection_check := loop_now env\<rparr>"
  have "iteration k env c = ?c1 \<or> iteration k env c = print_statistics (stats_now env) ?c2"
    using assms by (simp add: iteration_def Let_def)
  moreover have "console ?c1 = console (handle_video_frame k env f c) @ []"
    by simp
  moreover have "\<exists>more. console (print_statistics (stats_now env) ?c2) =
      console (handle_video_frame k env f c) @ more"
    using console_stats_grows [of "stats_now env" ?c2] by simp
  ultimately show ?thesis by metis
qed

lemma console_video_too_small:
  assumes "p_data f = Some bs" "bs \<noteq> []" "FourCC f = FourCC_type_H264 k"
    "length bs < sizeof_packet k"
  shows "\<exists>before. console (handle_video_frame k env f c) = before @ [Frame_too_small, Could_not_extract]"
  using assms
  by (simp add: handle_video_frame_def handle_compressed_frame_def data_size_in_bytes_def Let_def)

lemma console_video_wrong_codec:
  assumes "p_data f = Some bs" "bs \<noteq> []" "FourCC f = FourCC_type_H264 k"
    "sizeof_packet k \<le> length bs" "packet_fourCC k (take (sizeof_packet k) bs) \<noteq> FourCC_type_H264 k"
  shows "\<exists>before. console (handle_video_frame k env f c) = before @ [Packet_not_H264, Could_not_extract]"
  using assms
  by (simp add: handle_video_frame_def handle_compressed_frame_def data_size_in_bytes_def Let_def)

text \<open>
  C2, as the code has it. A video frame that carries the compressed format tag and is
  rejected because it is shorter than the packet header, or because the header's codec
  identifier is not H.264, is counted as received and nothing else: the dropped-frame
  counter keeps its value (it is incremented only when \<^verbatim>\<open>omt_send\<close> fails), no
  other counter moves, nothing is handed to the sink, the rejection is printed, and the
  loop goes on with the next iteration.
\<close>

theorem rejected_frame_not_counted:
  assumes "captured env = Frame_video f" and "p_data f = Some bs" and "bs \<noteq> []"
    and "FourCC f = FourCC_type_H264 k"
    and "length bs < sizeof_packet k \<or>
         packet_fourCC k (take (sizeof_packet k) bs) \<noteq> FourCC_type_H264 k"
  shows "frames_dropped (iteration k env c) = frames_dropped c \<and>
         frames_received (iteration k env c) = frames_received c + 1 \<and>
         frames_sent (iteration k env c) = frames_sent c \<and>
         bytes_sent (iteration k env c) = bytes_sent c \<and>
         bytes_received (iteration k env c) = bytes_received c \<and>
         keyframes_sent (iteration k env c) = keyframes_sent c \<and>
         pframes_sent (iteration k env c) = pframes_sent c \<and>
         omt_sent (iteration k env c) = omt_sent c \<and>
         (if length bs < sizeof_packet k then Frame_too_small else Packet_not_H264)
           \<in> set (console (iteration k env c)) \<and>
         run k (env # envs) c = run k envs (iteration k env c)"
proof -
  have rej: "\<not> accepted k f"
    using assms by (auto simp: accepted_def)
  have msg: "(if length bs < sizeof_packet k then Frame_too_small else Packet_not_H264)
           \<in> set (console (iteration k env c))"
  proof (cases "length bs < sizeof_packet k")
    case True
    then obtain before where "console (handle_video_frame k env f c) = before @ [Frame_too_small, Could_not_extract]"
      using console_video_too_small assms by blast
    moreover obtain more where "console (iteration k env c) = console (handle_video_frame k env f c) @ more"
      using console_iteration_video assms(1) by blast
    ultimately show ?thesis using True by simp
  next
    case False
    then have "sizeof_packet k \<le> length bs" "packet_fourCC k (take (sizeof_packet k) bs) \<noteq> FourCC_type_H264 k"
      using assms(5) by auto
    then obtain before where "console (handle_video_frame k env f c) = before @ [Packet_not_H264, Could_not_extract]"
      using console_video_wrong_codec assms by blast
    moreover obtain more where "console (iteration k env c) = console (handle_video_frame k env f c) @ more"
      using console_iteration_video assms(1) by blast
    ultimately show ?thesis using False by simp
  qed
  show ?thesis
    using msg by (simp add: iteration_video [OF assms(1)] video_rejected [OF rej])
qed

text \<open>
  The theorem at a four-byte frame and at a sixteen-byte frame whose header names
  another codec, on the twelve-byte test header.
\<close>

theorem rejected_frame_not_counted_witness:
  "frames_dropped (iteration test_sdk (test_env (Frame_video (test_frame 1920 1080 [1, 0, 0, 0])) 200)
      (initial test_sdk 0 0)) = 0 \<and>
   frames_received (iteration test_sdk (test_env (Frame_video (test_frame 1920 1080 [1, 0, 0, 0])) 200)
      (initial test_sdk 0 0)) = 1 \<and>
   omt_sent (iteration test_sdk (test_env (Frame_video (test_frame 1920 1080 [1, 0, 0, 0])) 200)
      (initial test_sdk 0 0)) = [] \<and>
   Frame_too_small \<in> set (console (iteration test_sdk
      (test_env (Frame_video (test_frame 1920 1080 [1, 0, 0, 0])) 200) (initial test_sdk 0 0))) \<and>
   frames_dropped (iteration test_sdk (test_env (Frame_video (test_frame 1920 1080
      [1, 0, 0, 0, 0x48, 0x45, 0x56, 0x43, 1, 0, 0, 0, 0, 0, 0, 1])) 200) (initial test_sdk 0 0)) = 0 \<and>
   Packet_not_H264 \<in> set (console (iteration test_sdk (test_env (Frame_video (test_frame 1920 1080
      [1, 0, 0, 0, 0x48, 0x45, 0x56, 0x43, 1, 0, 0, 0, 0, 0, 0, 1])) 200) (initial test_sdk 0 0)))"
proof -
  let ?f = "test_frame 1920 1080 [1, 0, 0, 0]"
  let ?env = "test_env (Frame_video ?f) 200"
  have h1: "captured ?env = Frame_video ?f" by (simp add: test_env_def)
  have h2: "p_data ?f = Some [1, 0, 0, 0]" by (simp add: test_frame_def)
  have h3: "[1, 0, 0, 0 :: u8] \<noteq> []" by simp
  have h4: "FourCC ?f = FourCC_type_H264 test_sdk" by (simp add: test_frame_def test_sdk_def)
  have h5: "length [1, 0, 0, 0 :: u8] < sizeof_packet test_sdk \<or>
     packet_fourCC test_sdk (take (sizeof_packet test_sdk) [1, 0, 0, 0]) \<noteq> FourCC_type_H264 test_sdk"
    by (simp add: test_sdk_def)
  have h6: "length [1, 0, 0, 0 :: u8] < sizeof_packet test_sdk" by (simp add: test_sdk_def)
  let ?bs = "[1, 0, 0, 0, 0x48, 0x45, 0x56, 0x43, 1, 0, 0, 0, 0, 0, 0, 1] :: u8 list"
  let ?g = "test_frame 1920 1080 ?bs"
  let ?envg = "test_env (Frame_video ?g) 200"
  have g1: "captured ?envg = Frame_video ?g" by (simp add: test_env_def)
  have g2: "p_data ?g = Some ?bs" by (simp add: test_frame_def)
  have g3: "?bs \<noteq> []" by simp
  have g4: "FourCC ?g = FourCC_type_H264 test_sdk" by (simp add: test_frame_def test_sdk_def)
  have g6: "\<not> length ?bs < sizeof_packet test_sdk" by (simp add: test_sdk_def)
  have g5: "length ?bs < sizeof_packet test_sdk \<or>
     packet_fourCC test_sdk (take (sizeof_packet test_sdk) ?bs) \<noteq> FourCC_type_H264 test_sdk"
    by (simp add: test_sdk_def le32_def)
  show ?thesis
    using rejected_frame_not_counted [OF h1 h2 h3 h4 h5, of "initial test_sdk 0 0" "[]"] h6
      rejected_frame_not_counted [OF g1 g2 g3 g4 g5, of "initial test_sdk 0 0" "[]"] g6
    by (simp add: initial_def)
qed

text \<open>
  The claim as written asks for the dropped-frame counter to be incremented. On the
  four-byte frame it is 0 before and 0 after, and the frame was rejected as too small.
\<close>

theorem rejected_frame_dropped_counterexample:
  "frames_dropped (initial test_sdk 0 0) = 0 \<and>
   frames_dropped (iteration test_sdk (test_env (Frame_video (test_frame 1920 1080 [1, 0, 0, 0])) 200)
      (initial test_sdk 0 0)) = 0 \<and>
   console (iteration test_sdk (test_env (Frame_video (test_frame 1920 1080 [1, 0, 0, 0])) 200)
      (initial test_sdk 0 0)) = [Stream_format 1920 1080, Frame_too_small, Could_not_extract]"
  by code_simp

text \<open>
  C1. Two frames that differ only in the keyframe bit of the container header: the
  first is a keyframe, the second is not, and the envelopes handed to \<^verbatim>\<open>omt_send\<close>
  are equal, both with the flags \<^verbatim>\<open>OMTVideoFlags_None\<close>. Both branches of lines
  455-463 store the same constant.
\<close>

theorem keyframe_flag_collapsed:
  "container_keyframe test_sdk (test_h264_frame 1 1080) \<and>
   \<not> container_keyframe test_sdk (test_h264_frame 0 1080) \<and>
   map Flags (omt_sent (iteration test_sdk
     (test_env (Frame_video (test_h264_frame 1 1080)) 200)
     (initial test_sdk 0 0))) = [OMTVideoFlags_None test_sdk] \<and>
   omt_sent (iteration test_sdk
     (test_env (Frame_video (test_h264_frame 1 1080)) 200)
     (initial test_sdk 0 0)) =
   omt_sent (iteration test_sdk
     (test_env (Frame_video (test_h264_frame 0 1080)) 200)
     (initial test_sdk 0 0))"
  by code_simp

text \<open>
  C3. A keyframe whose \<^verbatim>\<open>omt_send\<close> returns -1: the frame is counted as dropped and
  not as sent, and the keyframe counter has gone from 0 to 1 all the same, since line
  457 runs before the send.
\<close>

theorem failed_send_counts_keyframe:
  "sint (- 1 :: s32) < 0 \<and>
   keyframes_sent (initial test_sdk 0 0) = 0 \<and>
   keyframes_sent (iteration test_sdk
     (test_env (Frame_video (test_h264_frame 1 1080)) (- 1))
     (initial test_sdk 0 0)) = 1 \<and>
   frames_dropped (iteration test_sdk
     (test_env (Frame_video (test_h264_frame 1 1080)) (- 1))
     (initial test_sdk 0 0)) = 1 \<and>
   frames_sent (iteration test_sdk
     (test_env (Frame_video (test_h264_frame 1 1080)) (- 1))
     (initial test_sdk 0 0)) = 0"
  by code_simp

text \<open>
  The claim C4 as written fails on a frame of height 0 that follows a 1920x1080
  frame: the geometry is replaced (the height goes from 1080 to 0) and the envelope
  built for the frame carries the quotient by zero.
\<close>

theorem zero_height_accepted_counterexample:
  "current_height (run test_sdk
     [test_env (Frame_video (test_h264_frame 1 1080)) 200]
     (initial test_sdk 0 0)) = 1080 \<and>
   current_height (run test_sdk
     [test_env (Frame_video (test_h264_frame 1 1080)) 200,
      test_env (Frame_video (test_h264_frame 1 0)) 200]
     (initial test_sdk 0 0)) = 0 \<and>
   map AspectRatio (omt_sent (run test_sdk
     [test_env (Frame_video (test_h264_frame 1 1080)) 200,
      test_env (Frame_video (test_h264_frame 1 0)) 200]
     (initial test_sdk 0 0))) = [Some (14913081 / 8388608), None]"
  by code_simp

section \<open>Counters over a run\<close>

lemma iteration_steps:
  "frames_received (iteration k env c) =
     frames_received c + (if delivers_video env then 1 else 0)"
  "frames_sent (iteration k env c) =
     frames_sent c + (if forwards k env \<and> send_ok env then 1 else 0)"
  "frames_dropped (iteration k env c) =
     frames_dropped c + (if forwards k env \<and> \<not> send_ok env then 1 else 0)"
  "keyframes_sent (iteration k env c) =
     keyframes_sent c + (if forwards_keyframe k env then 1 else 0)"
  "pframes_sent (iteration k env c) =
     pframes_sent c + (if forwards k env \<and> \<not> forwards_keyframe k env then 1 else 0)"
  "bytes_sent (iteration k env c) = bytes_sent c + of_nat (forwarded_bytes k env)"
  "bytes_received (iteration k env c) = bytes_received c + of_nat (forwarded_bytes k env)"
proof -
  show "frames_received (iteration k env c) =
     frames_received c + (if delivers_video env then 1 else 0)"
  proof (cases "captured env")
    case (Frame_video f)
    then show ?thesis
      by (cases "accepted k f")
        (simp_all add: iteration_video [OF Frame_video] video_accepted video_rejected
          delivers_video_def)
  qed (simp_all add: iteration_no_video delivers_video_def)
  show "frames_sent (iteration k env c) =
     frames_sent c + (if forwards k env \<and> send_ok env then 1 else 0)"
  proof (cases "captured env")
    case (Frame_video f)
    then show ?thesis
      by (cases "accepted k f")
        (simp_all add: iteration_video [OF Frame_video] video_accepted video_rejected
          forwards_def send_ok_def)
  qed (simp_all add: iteration_no_video forwards_def)
  show "frames_dropped (iteration k env c) =
     frames_dropped c + (if forwards k env \<and> \<not> send_ok env then 1 else 0)"
  proof (cases "captured env")
    case (Frame_video f)
    then show ?thesis
      by (cases "accepted k f")
        (simp_all add: iteration_video [OF Frame_video] video_accepted video_rejected
          forwards_def send_ok_def)
  qed (simp_all add: iteration_no_video forwards_def)
  show "keyframes_sent (iteration k env c) =
     keyframes_sent c + (if forwards_keyframe k env then 1 else 0)"
  proof (cases "captured env")
    case (Frame_video f)
    then show ?thesis
      by (cases "accepted k f")
        (simp_all add: iteration_video [OF Frame_video] video_accepted video_rejected
          forwards_keyframe_def)
  qed (simp_all add: iteration_no_video forwards_keyframe_def)
  show "pframes_sent (iteration k env c) =
     pframes_sent c + (if forwards k env \<and> \<not> forwards_keyframe k env then 1 else 0)"
  proof (cases "captured env")
    case (Frame_video f)
    then show ?thesis
      by (cases "accepted k f")
        (simp_all add: iteration_video [OF Frame_video] video_accepted video_rejected
          forwards_keyframe_def forwards_def)
  qed (simp_all add: iteration_no_video forwards_keyframe_def forwards_def)
  show "bytes_sent (iteration k env c) = bytes_sent c + of_nat (forwarded_bytes k env)"
  proof (cases "captured env")
    case (Frame_video f)
    then show ?thesis
      by (cases "accepted k f")
        (simp_all add: iteration_video [OF Frame_video] video_accepted video_rejected
          forwarded_bytes_def forwards_def send_ok_def payload_size_def)
  qed (simp_all add: iteration_no_video forwarded_bytes_def forwards_def)
  show "bytes_received (iteration k env c) = bytes_received c + of_nat (forwarded_bytes k env)"
  proof (cases "captured env")
    case (Frame_video f)
    then show ?thesis
      by (cases "accepted k f")
        (simp_all add: iteration_video [OF Frame_video] video_accepted video_rejected
          forwarded_bytes_def forwards_def send_ok_def payload_size_def)
  qed (simp_all add: iteration_no_video forwarded_bytes_def forwards_def)
qed

lemma run_append: "run k (xs @ ys) c = run k ys (run k xs c)"
  by (induction xs arbitrary: c) simp_all

lemma run_counts:
  "frames_received (run k envs c) = frames_received c + of_nat (length (filter delivers_video envs))"
  "frames_sent (run k envs c) =
     frames_sent c + of_nat (length (filter (\<lambda>env. forwards k env \<and> send_ok env) envs))"
  "frames_dropped (run k envs c) =
     frames_dropped c + of_nat (length (filter (\<lambda>env. forwards k env \<and> \<not> send_ok env) envs))"
  "keyframes_sent (run k envs c) =
     keyframes_sent c + of_nat (length (filter (forwards_keyframe k) envs))"
  "pframes_sent (run k envs c) =
     pframes_sent c +
     of_nat (length (filter (\<lambda>env. forwards k env \<and> \<not> forwards_keyframe k env) envs))"
  "bytes_sent (run k envs c) = bytes_sent c + of_nat (sum_list (map (forwarded_bytes k) envs))"
  "bytes_received (run k envs c) =
     bytes_received c + of_nat (sum_list (map (forwarded_bytes k) envs))"
  by (induction envs arbitrary: c; simp add: iteration_steps)+


section \<open>The counters below the wrap-around\<close>

lemma sint_of_nat_small:
  assumes "n < 2 ^ 31"
  shows "sint (of_nat n :: 32 word) = int n"
proof -
  have "- (2 ^ 31) \<le> int n" "int n < 2 ^ 31"
    using assms by simp_all
  then have "signed_take_bit (31::nat) (int n) = int n"
    by (simp add: signed_take_bit_int_eq_self)
  then show ?thesis by (simp add: signed_of_nat)
qed

lemma count_le_received:
  assumes "\<And>env. P env \<Longrightarrow> delivers_video env"
  shows "length (filter P envs) \<le> length (filter delivers_video envs)"
proof -
  have "filter P envs = filter P (filter delivers_video envs)"
    using assms by (induction envs) auto
  then show ?thesis
    by (metis length_filter_le)
qed

lemma forwards_delivers: "forwards k env \<Longrightarrow> delivers_video env"
  by (cases "captured env") (simp_all add: forwards_def delivers_video_def)

lemma forwards_keyframe_delivers: "forwards_keyframe k env \<Longrightarrow> delivers_video env"
  by (cases "captured env") (simp_all add: forwards_keyframe_def delivers_video_def)

text \<open>
  Below the wrap-around the counters are what their names say. As long as fewer than
  \<open>2 ^ 31\<close> video frames have been received and fewer than \<open>2 ^ 31\<close> bytes forwarded,
  no counter is smaller at a later point of the run than at an earlier one, and the
  frames sent are at most the frames received.
\<close>

lemma counters_below_wrap:
  assumes "length (filter delivers_video (envs @ later)) < 2 ^ 31"
    and "sum_list (map (forwarded_bytes k) (envs @ later)) < 2 ^ 31"
  shows "sint (frames_received (run k envs (initial k t0 t1))) \<le>
           sint (frames_received (run k (envs @ later) (initial k t0 t1)))"
    and "sint (frames_sent (run k envs (initial k t0 t1))) \<le>
           sint (frames_sent (run k (envs @ later) (initial k t0 t1)))"
    and "sint (frames_dropped (run k envs (initial k t0 t1))) \<le>
           sint (frames_dropped (run k (envs @ later) (initial k t0 t1)))"
    and "sint (keyframes_sent (run k envs (initial k t0 t1))) \<le>
           sint (keyframes_sent (run k (envs @ later) (initial k t0 t1)))"
    and "sint (pframes_sent (run k envs (initial k t0 t1))) \<le>
           sint (pframes_sent (run k (envs @ later) (initial k t0 t1)))"
    and "sint (bytes_sent (run k envs (initial k t0 t1))) \<le>
           sint (bytes_sent (run k (envs @ later) (initial k t0 t1)))"
    and "sint (bytes_received (run k envs (initial k t0 t1))) \<le>
           sint (bytes_received (run k (envs @ later) (initial k t0 t1)))"
    and "0 \<le> sint (frames_sent (run k envs (initial k t0 t1)))"
    and "sint (frames_sent (run k envs (initial k t0 t1))) \<le>
           sint (frames_received (run k envs (initial k t0 t1)))"
proof -
  have cnt: "sint (of_nat (length (filter P es)) :: 32 word) = int (length (filter P es))"
    if "\<And>env. P env \<Longrightarrow> delivers_video env" and "es = envs \<or> es = envs @ later" for P es
  proof -
    have "length (filter P es) \<le> length (filter delivers_video es)"
      using count_le_received that(1) by blast
    also have "\<dots> \<le> length (filter delivers_video (envs @ later))"
      using that(2) by auto
    finally show ?thesis
      using assms(1) by (intro sint_of_nat_small) linarith
  qed
  have byt: "sint (of_nat (sum_list (map (forwarded_bytes k) es)) :: 32 word) =
      int (sum_list (map (forwarded_bytes k) es))"
    if "es = envs \<or> es = envs @ later" for es
  proof -
    have "sum_list (map (forwarded_bytes k) es) \<le> sum_list (map (forwarded_bytes k) (envs @ later))"
      using that by auto
    then show ?thesis
      using assms(2) by (intro sint_of_nat_small) linarith
  qed
  have rcv: "sint (frames_received (run k es (initial k t0 t1))) = int (length (filter delivers_video es))"
    if "es = envs \<or> es = envs @ later" for es
  proof -
    have "frames_received (run k es (initial k t0 t1)) = of_nat (length (filter delivers_video es))"
      by (simp add: run_counts initial_def)
    moreover have "sint (of_nat (length (filter delivers_video es)) :: 32 word) =
        int (length (filter delivers_video es))"
      using that by (intro cnt) (auto dest: forwards_delivers)
    ultimately show ?thesis by simp
  qed
  have snt: "sint (frames_sent (run k es (initial k t0 t1))) = int (length (filter (\<lambda>env. forwards k env \<and> send_ok env) es))"
    if "es = envs \<or> es = envs @ later" for es
  proof -
    have "frames_sent (run k es (initial k t0 t1)) = of_nat (length (filter (\<lambda>env. forwards k env \<and> send_ok env) es))"
      by (simp add: run_counts initial_def)
    moreover have "sint (of_nat (length (filter (\<lambda>env. forwards k env \<and> send_ok env) es)) :: 32 word) =
        int (length (filter (\<lambda>env. forwards k env \<and> send_ok env) es))"
      using that by (intro cnt) (auto dest: forwards_delivers)
    ultimately show ?thesis by simp
  qed
  have drp: "sint (frames_dropped (run k es (initial k t0 t1))) = int (length (filter (\<lambda>env. forwards k env \<and> \<not> send_ok env) es))"
    if "es = envs \<or> es = envs @ later" for es
  proof -
    have "frames_dropped (run k es (initial k t0 t1)) = of_nat (length (filter (\<lambda>env. forwards k env \<and> \<not> send_ok env) es))"
      by (simp add: run_counts initial_def)
    moreover have "sint (of_nat (length (filter (\<lambda>env. forwards k env \<and> \<not> send_ok env) es)) :: 32 word) =
        int (length (filter (\<lambda>env. forwards k env \<and> \<not> send_ok env) es))"
      using that by (intro cnt) (auto dest: forwards_delivers)
    ultimately show ?thesis by simp
  qed
  have key: "sint (keyframes_sent (run k es (initial k t0 t1))) = int (length (filter (forwards_keyframe k) es))"
    if "es = envs \<or> es = envs @ later" for es
  proof -
    have "keyframes_sent (run k es (initial k t0 t1)) = of_nat (length (filter (forwards_keyframe k) es))"
      by (simp add: run_counts initial_def)
    moreover have "sint (of_nat (length (filter (forwards_keyframe k) es)) :: 32 word) =
        int (length (filter (forwards_keyframe k) es))"
      using that by (intro cnt) (auto dest: forwards_keyframe_delivers)
    ultimately show ?thesis by simp
  qed
  have dlt: "sint (pframes_sent (run k es (initial k t0 t1))) = int (length (filter (\<lambda>env. forwards k env \<and> \<not> forwards_keyframe k env) es))"
    if "es = envs \<or> es = envs @ later" for es
  proof -
    have "pframes_sent (run k es (initial k t0 t1)) = of_nat (length (filter (\<lambda>env. forwards k env \<and> \<not> forwards_keyframe k env) es))"
      by (simp add: run_counts initial_def)
    moreover have "sint (of_nat (length (filter (\<lambda>env. forwards k env \<and> \<not> forwards_keyframe k env) es)) :: 32 word) =
        int (length (filter (\<lambda>env. forwards k env \<and> \<not> forwards_keyframe k env) es))"
      using that by (intro cnt) (auto dest: forwards_delivers)
    ultimately show ?thesis by simp
  qed
  have bs: "sint (bytes_sent (run k es (initial k t0 t1))) =
      int (sum_list (map (forwarded_bytes k) es))"
    if "es = envs \<or> es = envs @ later" for es
  proof -
    have "bytes_sent (run k es (initial k t0 t1)) = of_nat (sum_list (map (forwarded_bytes k) es))"
      by (simp add: run_counts initial_def)
    then show ?thesis using byt [OF that] by simp
  qed
  have br: "sint (bytes_received (run k es (initial k t0 t1))) =
      int (sum_list (map (forwarded_bytes k) es))"
    if "es = envs \<or> es = envs @ later" for es
  proof -
    have "bytes_received (run k es (initial k t0 t1)) = of_nat (sum_list (map (forwarded_bytes k) es))"
      by (simp add: run_counts initial_def)
    then show ?thesis using byt [OF that] by simp
  qed
  show "sint (frames_received (run k envs (initial k t0 t1))) \<le>
           sint (frames_received (run k (envs @ later) (initial k t0 t1)))"
    by (simp add: rcv)
  show "sint (frames_sent (run k envs (initial k t0 t1))) \<le>
           sint (frames_sent (run k (envs @ later) (initial k t0 t1)))"
    by (simp add: snt)
  show "sint (frames_dropped (run k envs (initial k t0 t1))) \<le>
           sint (frames_dropped (run k (envs @ later) (initial k t0 t1)))"
    by (simp add: drp)
  show "sint (keyframes_sent (run k envs (initial k t0 t1))) \<le>
           sint (keyframes_sent (run k (envs @ later) (initial k t0 t1)))"
    by (simp add: key)
  show "sint (pframes_sent (run k envs (initial k t0 t1))) \<le>
           sint (pframes_sent (run k (envs @ later) (initial k t0 t1)))"
    by (simp add: dlt)
  show "sint (bytes_sent (run k envs (initial k t0 t1))) \<le>
           sint (bytes_sent (run k (envs @ later) (initial k t0 t1)))"
    by (simp add: bs)
  show "sint (bytes_received (run k envs (initial k t0 t1))) \<le>
           sint (bytes_received (run k (envs @ later) (initial k t0 t1)))"
    by (simp add: br)
  show "0 \<le> sint (frames_sent (run k envs (initial k t0 t1)))"
    by (simp add: snt)
  show "sint (frames_sent (run k envs (initial k t0 t1))) \<le>
           sint (frames_received (run k envs (initial k t0 t1)))"
  proof -
    have "length (filter (\<lambda>env. forwards k env \<and> send_ok env) envs) \<le>
        length (filter delivers_video envs)"
      by (rule count_le_received) (auto dest: forwards_delivers)
    then show ?thesis by (simp add: snt rcv)
  qed
qed

section \<open>The byte counters wrap around\<close>

lemma test_big_frame_bytes:
  "forwarded_bytes test_sdk (test_env (Frame_video test_big_frame) 65536) = 65536"
proof -
  have "le32 (test_header 1) 4 = 0x34363248"
    by (simp add: le32_def test_header_def)
  then show ?thesis
    by (simp add: forwarded_bytes_def forwards_def send_ok_def payload_size_def accepted_def
        encoded_unit_def test_env_def test_big_frame_def test_frame_def test_sdk_def
        test_header_def)
qed

text \<open>
  C7. A run of 32768 keyframes of 65536 payload bytes each, all sent successfully:
  after 32767 of them \<^verbatim>\<open>bytes_sent\<close> reads 2147418112, and after one more it reads
  -2147483648. The 32-bit counter has wrapped, so it is not non-decreasing over the run.
\<close>

theorem bytes_counter_wraps:
  "sint (bytes_sent (run test_sdk (replicate 32767 (test_env (Frame_video test_big_frame) 65536))
      (initial test_sdk 0 0))) = 2147418112 \<and>
   sint (bytes_sent (run test_sdk (replicate 32768 (test_env (Frame_video test_big_frame) 65536))
      (initial test_sdk 0 0))) = - 2147483648"
  by (simp add: run_counts sum_list_replicate test_big_frame_bytes initial_def)


section \<open>The report and its warnings\<close>

lemma iteration_quiet:
  assumes "loop_now env - last_connection_check c < 1000000000"
  shows "last_stats_time (iteration k env c) = last_stats_time c"
    "last_connection_check (iteration k env c) = last_connection_check c"
    "start_time (iteration k env c) = start_time c"
  using assms by (cases "captured env"; simp add: iteration_def Let_def video_unchanged)+

lemma run_quiet:
  assumes "\<forall>env\<in>set envs. loop_now env - last_connection_check c < 1000000000"
  shows "last_stats_time (run k envs c) = last_stats_time c \<and>
    last_connection_check (run k envs c) = last_connection_check c \<and>
    start_time (run k envs c) = start_time c"
  using assms
proof (induction envs arbitrary: c)
  case Nil
  then show ?case by simp
next
  case (Cons env envs)
  have q: "loop_now env - last_connection_check c < 1000000000"
    using Cons.prems by simp
  have "\<forall>e\<in>set envs. loop_now e - last_connection_check (iteration k env c) < 1000000000"
    using Cons.prems by (simp add: iteration_quiet [OF q])
  from Cons.IH [OF this] show ?case
    by (simp add: iteration_quiet [OF q])
qed

lemma report_printed:
  assumes "captured env = Frame_none"
    and "1000000000 \<le> loop_now env - last_connection_check c"
    and "2 * 1000000000 \<le> stats_now env - last_stats_time c"
    and "0 < seconds_of (stats_now env - start_time c)"
  shows "console (iteration k env c) =
     console c @
     [Frame_statistics (frame_statistics (seconds_of (stats_now env - start_time c))
        (c\<lparr>connections := loop_connections env\<rparr>))] @
     (if warn_only_I_frames c then [Warning_only_I_frames] else []) @
     (if warn_high_drop_rate c then [Warning_high_drop_rate] else [])"
  using assms
  by (simp add: iteration_def print_statistics_def Let_def warn_only_I_frames_def
      warn_high_drop_rate_def frame_statistics_def)

lemma test_h264_frame_forwards:
  "forwards test_sdk (test_env (Frame_video (test_h264_frame 0 1080)) r)"
  "delivers_video (test_env (Frame_video (test_h264_frame 0 1080)) r)"
  "send_ok (test_env (Frame_video (test_h264_frame 0 1080)) r) = (0 \<le> sint r)"
proof -
  have "le32 (test_header 0) 4 = 0x34363248"
    by (simp add: le32_def test_header_def)
  then show "forwards test_sdk (test_env (Frame_video (test_h264_frame 0 1080)) r)"
    by (simp add: forwards_def accepted_def test_env_def test_h264_frame_def test_frame_def
        test_sdk_def test_header_def)
  show "delivers_video (test_env (Frame_video (test_h264_frame 0 1080)) r)"
    by (simp add: delivers_video_def test_env_def)
  show "send_ok (test_env (Frame_video (test_h264_frame 0 1080)) r) = (0 \<le> sint r)"
    by (simp add: send_ok_def test_env_def)
qed

lemma one_tenth_as_float: "exceeds_0_1 (f32_div (f32_of_int 2) (f32_of_int 20))"
  by code_simp

text \<open>
  C8. Twenty frames received, two of them dropped, then a report. The drop rate is
  exactly one tenth, which is not above 0.1, and the report carries the warning of a
  high drop rate: the quotient is rounded to the float nearest to one tenth, which lies
  above the double constant \<^verbatim>\<open>0.1\<close> it is compared with.
\<close>

theorem high_drop_rate_at_one_tenth:
  "frames_received (run test_sdk test_drop_run (initial test_sdk 0 0)) = 20 \<and>
   frames_dropped (run test_sdk test_drop_run (initial test_sdk 0 0)) = 2 \<and>
   \<not> (1 / 10 < (2 :: rat) / 20) \<and>
   warn_high_drop_rate (run test_sdk test_drop_run (initial test_sdk 0 0)) \<and>
   Warning_high_drop_rate \<in>
     set (console (run test_sdk (test_drop_run @ [test_report_env]) (initial test_sdk 0 0)))"
proof -
  let ?c = "run test_sdk test_drop_run (initial test_sdk 0 0)"
  have r: "frames_received ?c = 20" and d: "frames_dropped ?c = 2"
    by (simp_all add: run_counts test_drop_run_def test_h264_frame_forwards initial_def)
  have w: "warn_high_drop_rate ?c"
    using one_tenth_as_float by (simp add: warn_high_drop_rate_def r d)
  have "\<forall>env\<in>set test_drop_run. loop_now env - last_connection_check (initial test_sdk 0 0) < 1000000000"
    by (auto simp: test_drop_run_def test_env_def initial_def)
  from run_quiet [OF this, of test_sdk]
  have t: "last_stats_time ?c = 0" "last_connection_check ?c = 0" "start_time ?c = 0"
    by (simp_all add: initial_def)
  have "console (iteration test_sdk test_report_env ?c) =
     console ?c @
     [Frame_statistics (frame_statistics (seconds_of (stats_now test_report_env - start_time ?c))
        (?c\<lparr>connections := loop_connections test_report_env\<rparr>))] @
     (if warn_only_I_frames ?c then [Warning_only_I_frames] else []) @
     (if warn_high_drop_rate ?c then [Warning_high_drop_rate] else [])"
    by (rule report_printed) (simp_all add: t test_report_env_def seconds_of_def)
  then have "Warning_high_drop_rate \<in> set (console (iteration test_sdk test_report_env ?c))"
    using w by simp
  then show ?thesis
    using r d w by (simp add: run_append)
qed

section \<open>Rounding keeps integers away from zero\<close>

lemma bitlen_bounds:
  "0 < n \<Longrightarrow> 2 ^ (bitlen n - 1) \<le> n \<and> n < 2 ^ bitlen n"
proof (induction n rule: bitlen.induct)
  case (1 n)
  have bl: "bitlen n = Suc (bitlen (n div 2))"
    using "1.prems" by (subst bitlen.simps) simp
  show ?case
  proof (cases "n div 2 = 0")
    case True
    then have "n = 1" using "1.prems" by linarith
    moreover have "bitlen 0 = 0" by (subst bitlen.simps) simp
    ultimately show ?thesis using bl True by simp
  next
    case False
    then have pos: "0 < n div 2" by simp
    have ih: "2 ^ (bitlen (n div 2) - 1) \<le> n div 2 \<and> n div 2 < 2 ^ bitlen (n div 2)"
      using "1.IH" "1.prems" pos by simp
    have bpos: "0 < bitlen (n div 2)"
      using pos by (subst bitlen.simps) simp
    then have e: "2 ^ (bitlen (n div 2)) = 2 * (2::nat) ^ (bitlen (n div 2) - 1)"
      by (cases "bitlen (n div 2)") simp_all
    show ?thesis
      using ih e by (simp add: bl) linarith
  qed
qed

lemma binade_lower:
  assumes "0 < q"
  shows "2 powi (binade q) \<le> q"
proof -
  obtain a b where ab: "quotient_of q = (a, b)" by (cases "quotient_of q")
  have bpos: "0 < b" using ab quotient_of_denom_pos by blast
  have q: "q = of_int a / of_int b" using ab quotient_of_div by blast
  have apos: "0 < a" using assms bpos q by (simp add: zero_less_divide_iff)
  let ?la = "bitlen (nat a)" and ?lb = "bitlen (nat b)"
  let ?e0 = "int ?la - int ?lb"
  show ?thesis
  proof (cases "2 powi ?e0 \<le> q")
    case True
    then show ?thesis by (simp add: binade_def ab Let_def)
  next
    case False
    then have be: "binade q = ?e0 - 1" by (simp add: binade_def ab Let_def)
    have la: "2 ^ (?la - 1) \<le> nat a" and lb: "nat b < 2 ^ ?lb"
      using bitlen_bounds [of "nat a"] bitlen_bounds [of "nat b"] apos bpos by simp_all
    have lapos: "0 < ?la" using apos by (subst bitlen.simps) simp
    have a1: "(2::rat) ^ (?la - 1) \<le> of_int a"
    proof -
      have "(2::int) ^ (?la - 1) \<le> a" using la apos
        by (simp add: le_nat_iff)
      then have "of_int ((2::int) ^ (?la - 1)) \<le> (of_int a :: rat)" by (simp only: of_int_le_iff)
      then show ?thesis by simp
    qed
    have b1: "(of_int b :: rat) \<le> 2 ^ ?lb"
    proof -
      have "b \<le> (2::int) ^ ?lb" using lb bpos
        by (simp add: nat_less_iff)
      then have "of_int b \<le> (of_int ((2::int) ^ ?lb) :: rat)" by (simp only: of_int_le_iff)
      then show ?thesis by simp
    qed
    have "(2::rat) powi (?e0 - 1) = 2 ^ (?la - 1) / 2 ^ ?lb"
    proof -
      have eq: "?e0 - 1 = int (?la - 1) - int ?lb" using lapos by simp
      have "(2::rat) powi (?e0 - 1) = 2 powi (int (?la - 1) - int ?lb)" by (simp only: eq)
      also have "\<dots> = 2 powi int (?la - 1) / 2 powi int ?lb"
        by (rule power_int_diff) simp
      finally show ?thesis by simp
    qed
    also have "\<dots> \<le> of_int a / of_int b"
      using a1 b1 bpos apos by (intro frac_le) simp_all
    finally show ?thesis using be q by simp
  qed
qed

lemma round_even_ge_floor: "\<lfloor>x\<rfloor> \<le> round_even x"
  by (simp add: round_even_def Let_def)

lemma f32_round_nonzero:
  assumes "1 \<le> \<bar>q\<bar>"
  shows "f32_round q \<noteq> 0"
proof -
  let ?a = "\<bar>q\<bar>"
  let ?e = "max (binade ?a) (- 126)"
  let ?ulp = "(2::rat) powi (?e - 23)"
  have q0: "q \<noteq> 0" using assms by auto
  have ulp_pos: "0 < ?ulp" by simp
  have "1 \<le> ?a / ?ulp"
  proof (cases "- 126 \<le> binade ?a")
    case True
    then have e: "?e = binade ?a" by simp
    have "2 powi (binade ?a) \<le> ?a" using binade_lower [of ?a] q0 by simp
    moreover have "?ulp \<le> 2 powi (binade ?a)"
      unfolding e by (rule power_int_increasing) simp_all
    ultimately have "?ulp \<le> ?a" by linarith
    then show ?thesis using ulp_pos by (simp add: le_divide_eq)
  next
    case False
    then have e: "?e = - 126" by simp
    have "?ulp \<le> 2 powi 0"
      unfolding e by (rule power_int_increasing) simp_all
    then have "?ulp \<le> ?a" using assms by simp
    then show ?thesis using ulp_pos by (simp add: le_divide_eq)
  qed
  then have "1 \<le> \<lfloor>?a / ?ulp\<rfloor>" by (simp add: le_floor_iff)
  then have "1 \<le> round_even (?a / ?ulp)" using round_even_ge_floor [of "?a / ?ulp"] by linarith
  then have "of_int (round_even (?a / ?ulp)) \<noteq> (0::rat)" by simp
  moreover have "sgn q \<noteq> 0" using q0 by (simp add: sgn_eq_0_iff)
  moreover have "?ulp \<noteq> 0" by simp
  ultimately show ?thesis
    using q0 by (simp add: f32_round_def Let_def)
qed

lemma f32_of_int_eq_0_iff: "f32_of_int n = 0 \<longleftrightarrow> n = 0"
proof
  assume "f32_of_int n = 0"
  show "n = 0"
  proof (rule ccontr)
    assume "n \<noteq> 0"
    then have "1 \<le> \<bar>n\<bar>" by linarith
    then have "of_int 1 \<le> (of_int \<bar>n\<bar> :: rat)" by (simp only: of_int_le_iff)
    then have "1 \<le> \<bar>of_int n :: rat\<bar>" by simp
    then show False using f32_round_nonzero \<open>f32_of_int n = 0\<close> by (simp add: f32_of_int_def)
  qed
next
  assume "n = 0"
  then show "f32_of_int n = 0" by (simp add: f32_of_int_def f32_round_def)
qed

lemma float_quot_None_iff: "float_quot a b = None \<longleftrightarrow> b = 0"
  by (simp add: float_quot_def f32_div_def f32_of_int_eq_0_iff signed_eq_0_iff)

section \<open>The two byte counters agree\<close>

text \<open>
  C10. From the start of the run on, \<^verbatim>\<open>bytes_received\<close> and \<^verbatim>\<open>bytes_sent\<close> hold the
  same value, the sum (modulo \<open>2 ^ 32\<close>) of the encoded-unit sizes of the frames whose
  send returned a non-negative value. Each iteration adds the same amount to both: the
  size of the encoded unit if the frame was accepted and sent successfully, and nothing
  for a rejected frame, a failed send or any other event. The two bitrates of a report
  are computed from equal counters by the same expression, so they are equal.
\<close>

theorem bytes_received_equals_bytes_sent:
  "bytes_received (run k envs (initial k t0 t1)) = bytes_sent (run k envs (initial k t0 t1)) \<and>
   bytes_sent (run k envs (initial k t0 t1)) = of_nat (sum_list (map (forwarded_bytes k) envs)) \<and>
   bytes_sent (iteration k env c) = bytes_sent c + of_nat (forwarded_bytes k env) \<and>
   bytes_received (iteration k env c) = bytes_received c + of_nat (forwarded_bytes k env) \<and>
   stat_mbps_received (frame_statistics seconds (run k envs (initial k t0 t1))) =
     stat_mbps_sent (frame_statistics seconds (run k envs (initial k t0 t1)))"
proof -
  have e: "bytes_received (run k envs (initial k t0 t1)) = bytes_sent (run k envs (initial k t0 t1))"
    by (simp add: run_counts initial_def)
  have "bytes_sent (run k envs (initial k t0 t1)) = of_nat (sum_list (map (forwarded_bytes k) envs))"
    by (simp add: run_counts initial_def)
  then show ?thesis
    using e by (simp add: iteration_steps frame_statistics_def)
qed

section \<open>The geometry update and the aspect ratio\<close>

text \<open>
  C4, as the code has it. \<^verbatim>\<open>handle_video_frame\<close> takes over the geometry of every
  frame, whatever its height: afterwards the current geometry is the frame's. The
  envelope built for an accepted frame carries that width and height and the float
  quotient of the two, and the quotient is a division by zero exactly when the frame's
  height is 0.
\<close>

theorem geometry_update_unguarded:
  "current_width (handle_video_frame k env f c) = xres f \<and>
   current_height (handle_video_frame k env f c) = yres f \<and>
   current_fps_n (handle_video_frame k env f c) = frame_rate_N f \<and>
   current_fps_d (handle_video_frame k env f c) = frame_rate_D f \<and>
   (accepted k f \<longrightarrow>
      omt_sent (handle_video_frame k env f c) =
        omt_sent c @ [omt_frame (handle_video_frame k env f c)] \<and>
      Width (omt_frame (handle_video_frame k env f c)) = xres f \<and>
      Height (omt_frame (handle_video_frame k env f c)) = yres f \<and>
      AspectRatio (omt_frame (handle_video_frame k env f c)) = float_quot (xres f) (yres f)) \<and>
   (float_quot (xres f) (yres f) = None \<longleftrightarrow> yres f = 0)"
  by (simp add: video_geometry video_accepted float_quot_None_iff)

text \<open>The theorem at an accepted frame of height 0 that follows a 1920x1080 geometry.\<close>

theorem geometry_update_unguarded_witness:
  "accepted test_sdk (test_h264_frame 1 0) \<and>
   current_height (handle_video_frame test_sdk (test_env Frame_none 200)
     (test_h264_frame 1 0)
     ((initial test_sdk 0 0)\<lparr>current_width := 1920, current_height := 1080\<rparr>)) = 0 \<and>
   AspectRatio (omt_frame (handle_video_frame test_sdk (test_env Frame_none 200)
     (test_h264_frame 1 0)
     ((initial test_sdk 0 0)\<lparr>current_width := 1920, current_height := 1080\<rparr>))) = None"
proof -
  let ?f = "test_h264_frame 1 0"
  have "le32 (test_header 1) 4 = 0x34363248"
    by (simp add: le32_def test_header_def)
  then have a: "accepted test_sdk ?f"
    by (simp add: accepted_def test_h264_frame_def test_frame_def test_sdk_def test_header_def)
  have y: "yres ?f = 0" by (simp add: test_h264_frame_def test_frame_def)
  show ?thesis
    using geometry_update_unguarded [of test_sdk "test_env Frame_none 200" ?f
        "(initial test_sdk 0 0)\<lparr>current_width := 1920, current_height := 1080\<rparr>"] a y
    by simp
qed

section \<open>The encoded unit of an accepted frame\<close>

lemma send_console:
  "\<exists>rest. console (snd (send_compressed_to_omt k env h n kf c)) = console c @ rest"
  by (simp add: send_compressed_to_omt_def Let_def)

text \<open>
  C6. A frame with a buffer, the compressed format tag, at least a header's worth of
  bytes and the H.264 codec identifier in its header is accepted (the header has a
  positive size, as every C++ object has). The encoded
  unit handed to the scan and to \<^verbatim>\<open>omt_send\<close> is the buffer without its header, of
  length the buffer's length minus the header size. When the buffer is exactly one
  header long the unit is empty: the frame is still accepted, the scan reports
  \<open>Unknown\<close>, and an envelope of length 0 is sent.
\<close>

theorem accepted_frame_span:
  assumes "0 < sizeof_packet k" and "p_data f = Some bs" and "FourCC f = FourCC_type_H264 k"
    and "sizeof_packet k \<le> length bs"
    and "packet_fourCC k (take (sizeof_packet k) bs) = FourCC_type_H264 k"
  shows "fst (handle_compressed_frame k env f c) \<and>
    omt_sent (snd (handle_compressed_frame k env f c)) =
      omt_sent c @ [omt_frame (snd (handle_compressed_frame k env f c))] \<and>
    Data (omt_frame (snd (handle_compressed_frame k env f c))) = Some (drop (sizeof_packet k) bs) \<and>
    DataLength (omt_frame (snd (handle_compressed_frame k env f c))) =
      length bs - sizeof_packet k \<and>
    length (drop (sizeof_packet k) bs) = length bs - sizeof_packet k \<and>
    (\<exists>rest. console (snd (handle_compressed_frame k env f c)) =
       console c @
       Frame_analysis (packet_flags k (take (sizeof_packet k) bs) AND flags_keyframe k \<noteq> 0)
         (snd (scan_start_codes (drop (sizeof_packet k) bs))) # rest) \<and>
    (length bs = sizeof_packet k \<longrightarrow>
       drop (sizeof_packet k) bs = [] \<and>
       scan_start_codes (drop (sizeof_packet k) bs) = (False, ''Unknown'') \<and>
       DataLength (omt_frame (snd (handle_compressed_frame k env f c))) = 0)"
proof -
  have "bs \<noteq> []"
    using assms(1,4) by auto
  then have a: "accepted k f"
    using assms by (simp add: accepted_def)
  have u: "encoded_unit k f = drop (sizeof_packet k) bs"
    using assms by (simp add: encoded_unit_def)
  have kf: "container_keyframe k f =
      (packet_flags k (take (sizeof_packet k) bs) AND flags_keyframe k \<noteq> 0)"
    using assms by (simp add: container_keyframe_def)
  note h = handle_compressed_frame_accepted [OF a, of env c]
  obtain rest where
    "console (snd (send_compressed_to_omt k env (encoded_unit k f) (length (encoded_unit k f))
       (container_keyframe k f) (c\<lparr>console := console c @ analysis_lines k f\<rparr>))) =
     console (c\<lparr>console := console c @ analysis_lines k f\<rparr>) @ rest"
    using send_console by blast
  then have con: "\<exists>rest. console (snd (handle_compressed_frame k env f c)) =
       console c @
       Frame_analysis (packet_flags k (take (sizeof_packet k) bs) AND flags_keyframe k \<noteq> 0)
         (snd (scan_start_codes (drop (sizeof_packet k) bs))) # rest"
    by (simp add: h analysis_lines_def u kf)
  have empty: "scan_start_codes [] = (False, ''Unknown'')"
    by (simp add: scan_start_codes_def scan_from.simps)
  show ?thesis
    using con by (simp add: h send_envelope u empty)
qed

text \<open>The theorem at a frame that consists of the twelve-byte test header alone.\<close>

theorem accepted_frame_span_witness:
  "fst (handle_compressed_frame test_sdk (test_env Frame_none 200)
     (test_frame 1920 1080 (test_header 1)) (initial test_sdk 0 0)) \<and>
   map Data (omt_sent (snd (handle_compressed_frame test_sdk (test_env Frame_none 200)
     (test_frame 1920 1080 (test_header 1)) (initial test_sdk 0 0)))) = [Some []] \<and>
   map DataLength (omt_sent (snd (handle_compressed_frame test_sdk (test_env Frame_none 200)
     (test_frame 1920 1080 (test_header 1)) (initial test_sdk 0 0)))) = [0] \<and>
   scan_start_codes (drop (sizeof_packet test_sdk) (test_header 1)) = (False, ''Unknown'')"
proof -
  let ?f = "test_frame 1920 1080 (test_header 1)"
  have h1: "0 < sizeof_packet test_sdk" by (simp add: test_sdk_def)
  have h2: "p_data ?f = Some (test_header 1)" by (simp add: test_frame_def)
  have h3: "FourCC ?f = FourCC_type_H264 test_sdk" by (simp add: test_frame_def test_sdk_def)
  have h4: "sizeof_packet test_sdk \<le> length (test_header 1)"
    by (simp add: test_sdk_def test_header_def)
  have h5: "packet_fourCC test_sdk (take (sizeof_packet test_sdk) (test_header 1)) =
      FourCC_type_H264 test_sdk"
    by (simp add: test_sdk_def test_header_def le32_def)
  have h6: "length (test_header 1) = sizeof_packet test_sdk"
    by (simp add: test_sdk_def test_header_def)
  show ?thesis
    using accepted_frame_span [OF h1 h2 h3 h4 h5, of "test_env Frame_none 200" "initial test_sdk 0 0"] h6
    by (simp add: initial_def)
qed

end
